theory Spec2Isabelle
  imports
    Main
    "HOL-Library.Char_ord"
    "HOL-Library.List_Lexorder"
    "HOL-Library.Multiset"
begin

section \<open>JavaScript values\<close>

text \<open>
  The three lambdas (payment webhook, outbox processor, outbox cleanup) work on values
  that come out of \<^verbatim>\<open>JSON.parse\<close>. A value is one of the six JSON kinds; the
  JavaScript \<^verbatim>\<open>undefined\<close> is \<open>None\<close> of \<open>json option\<close>. An object is the
  list of its own properties (property names are distinct in a JavaScript object).
  A number is kept as the text JavaScript prints for it (\<^verbatim>\<open>1001\<close>, \<^verbatim>\<open>-1\<close>,
  \<^verbatim>\<open>0.5\<close>, \<^verbatim>\<open>1e+21\<close>; zero and minus zero both print \<^verbatim>\<open>0\<close>): that text and
  whether the number is zero are all that the lambdas observe of a number.
  A string is the list of its code units.
\<close>

datatype json =
    JNull
  | JBool bool
  | JNum string
  | JStr string
  | JArr "json list"
  | JObj "(string \<times> json) list"

datatype error = TypeError | SyntaxError | RecordNotFound | StorageError | BrokerError | InvalidDate

text \<open>\<^verbatim>\<open>!v\<close> is false exactly on the truthy values.\<close>

fun truthy :: "json option \<Rightarrow> bool" where
  "truthy None = False"
| "truthy (Some JNull) = False"
| "truthy (Some (JBool b)) = b"
| "truthy (Some (JNum n)) = (n \<noteq> ''0'')"
| "truthy (Some (JStr s)) = (s \<noteq> [])"
| "truthy (Some (JArr xs)) = True"
| "truthy (Some (JObj kvs)) = True"

text \<open>Decimal rendering of an array or string index, as \<^verbatim>\<open>Object.keys\<close> lists it.\<close>

definition digit_char :: "nat \<Rightarrow> char" where
  "digit_char d = ''0123456789'' ! d"

fun show_nat :: "nat \<Rightarrow> string" where
  "show_nat n = (if n < 10 then [digit_char n] else show_nat (n div 10) @ [digit_char (n mod 10)])"

declare show_nat.simps [simp del]

text \<open>\<^verbatim>\<open>Array.prototype.join\<close> on strings.\<close>

fun join :: "string \<Rightarrow> string list \<Rightarrow> string" where
  "join sep [] = []"
| "join sep [x] = x"
| "join sep (x # y # zs) = x @ sep @ join sep (y # zs)"

text \<open>
  String conversion, used by the template literal \<^verbatim>\<open>`${key}=${data[key]}`\<close> and by
  \<^verbatim>\<open>.toString()\<close>. An array joins its elements with a comma, \<^verbatim>\<open>null\<close> elements
  giving the empty string. An object gives \<^verbatim>\<open>[object Object]\<close>, unless it has an own
  property \<^verbatim>\<open>toString\<close> (a JSON value, so not callable): then the conversion throws a
  TypeError, which is \<open>None\<close> here.
\<close>

fun js_string :: "json \<Rightarrow> string option" where
  "js_string JNull = Some ''null''"
| "js_string (JBool b) = Some (if b then ''true'' else ''false'')"
| "js_string (JNum n) = Some n"
| "js_string (JStr s) = Some s"
| "js_string (JArr xs) =
     map_option (join '','') (those (map (\<lambda>x. if x = JNull then Some [] else js_string x) xs))"
| "js_string (JObj kvs) =
     (if ''toString'' \<in> set (map fst kvs) then None else Some ''[object Object]'')"

text \<open>
  The own enumerable properties of a value, as \<^verbatim>\<open>Object.keys(v)\<close> lists them and
  \<^verbatim>\<open>v[key]\<close> reads them: the properties of an object, the indices of an array or of a
  string, nothing for a number or a boolean.
\<close>

fun own_entries :: "json \<Rightarrow> (string \<times> json) list" where
  "own_entries (JObj kvs) = kvs"
| "own_entries (JArr xs) = zip (map show_nat [0..<length xs]) xs"
| "own_entries (JStr s) = zip (map show_nat [0..<length s]) (map (\<lambda>c. JStr [c]) s)"
| "own_entries v = []"

definition js_get :: "json \<Rightarrow> string \<Rightarrow> json option" where
  "js_get v k = map_of (own_entries v) k"

text \<open>\<^verbatim>\<open>s.split(c)\<close> for a one-character separator.\<close>

fun split_on :: "char \<Rightarrow> string \<Rightarrow> string list" where
  "split_on c [] = [[]]"
| "split_on c (x # xs) =
     (if x = c then [] # split_on c xs
      else (case split_on c xs of [] \<Rightarrow> [[x]] | w # ws \<Rightarrow> (x # w) # ws))"

text \<open>\<^verbatim>\<open>xs[i]\<close>: \<^verbatim>\<open>undefined\<close> out of range.\<close>

definition at_index :: "'a list \<Rightarrow> nat \<Rightarrow> 'a option" where
  "at_index xs i = (if i < length xs then Some (xs ! i) else None)"

text \<open>\<^verbatim>\<open>process.env.X || ''\<close>: an unset variable and an empty one both give the empty string.\<close>

definition or_empty :: "string option \<Rightarrow> string" where
  "or_empty v = (case v of None \<Rightarrow> [] | Some s \<Rightarrow> s)"

text \<open>\<^verbatim>\<open>process.env.X || d\<close>.\<close>

definition or_default :: "string option \<Rightarrow> string \<Rightarrow> string" where
  "or_default v d = (case v of None \<Rightarrow> d | Some s \<Rightarrow> if s = [] then d else s)"

section \<open>Payment webhook handler: signature verification\<close>

text \<open>
  What the lambda takes from outside: the two library functions it calls
  (\<^verbatim>\<open>crypto.createHmac('sha256', key).update(msg).digest('hex')\<close> as \<open>hmacHex key msg\<close>,
  \<^verbatim>\<open>JSON.parse\<close> with \<open>None\<close> for its SyntaxError) and the two environment variables.
\<close>

record runtime =
  hmacHex :: "string \<Rightarrow> string \<Rightarrow> string"
  jsonParse :: "string \<Rightarrow> json option"
  ZALOPAY_KEY2 :: "string option"
  PAYOS_CHECKSUM_KEY :: "string option"

datatype PaymentProvider = ZALOPAY | PAYOS

text \<open>\<open>orderCode\<close> is a string, or \<open>None\<close> for \<^verbatim>\<open>null\<close> and \<^verbatim>\<open>undefined\<close>.\<close>

record CallbackResult =
  orderCode :: "string option"
  success :: bool
  response :: json

definition zalopay_rejected :: CallbackResult where
  "zalopay_rejected =
     \<lparr>orderCode = None, success = False, response = JObj [(''return_code'', JNum ''-1'')]\<rparr>"

definition zalopay_accepted :: json where
  "zalopay_accepted = JObj [(''return_code'', JNum ''1''), (''return_message'', JStr ''success'')]"

text \<open>
  \<^verbatim>\<open>dataJson.app_trans_id?.split('_')[1] || dataJson.app_trans_id\<close>. Reading a property of
  \<^verbatim>\<open>null\<close> throws; \<^verbatim>\<open>?.\<close> stops at \<^verbatim>\<open>null\<close> and \<^verbatim>\<open>undefined\<close>; a value
  of another kind than a string has no callable \<^verbatim>\<open>split\<close>.
\<close>

definition app_trans_order_code :: "json \<Rightarrow> error + string option" where
  "app_trans_order_code dataJson =
     (case dataJson of
        JNull \<Rightarrow> Inl TypeError
      | _ \<Rightarrow>
        (case js_get dataJson ''app_trans_id'' of
           None \<Rightarrow> Inr None
         | Some JNull \<Rightarrow> Inr None
         | Some (JStr t) \<Rightarrow>
             (case at_index (split_on CHR ''_'' t) 1 of
                None \<Rightarrow> Inr (Some t)
              | Some seg \<Rightarrow> Inr (Some (if seg \<noteq> [] then seg else t)))
         | Some _ \<Rightarrow> Inl TypeError))"

definition verifyZaloPayCallback :: "runtime \<Rightarrow> json \<Rightarrow> error + CallbackResult" where
  "verifyZaloPayCallback rt body =
     (case body of
        JNull \<Rightarrow> Inl TypeError
      | _ \<Rightarrow>
        (let data = js_get body ''data''; mac = js_get body ''mac'' in
         if \<not> truthy data \<or> \<not> truthy mac then Inr zalopay_rejected
         else
           (case data of
              Some (JStr d) \<Rightarrow>
                (let key2 = or_empty (ZALOPAY_KEY2 rt);
                     expectedMac = hmacHex rt key2 d
                 in if mac \<noteq> Some (JStr expectedMac) then Inr zalopay_rejected
                    else
                      (case jsonParse rt d of
                         None \<Rightarrow> Inl SyntaxError
                       | Some dataJson \<Rightarrow>
                           (case app_trans_order_code dataJson of
                              Inl e \<Rightarrow> Inl e
                            | Inr oc \<Rightarrow>
                                Inr \<lparr>orderCode = oc, success = True, response = zalopay_accepted\<rparr>)))
            | _ \<Rightarrow> Inl TypeError)))"

text \<open>
  \<^verbatim>\<open>Object.keys(data).sort().map((key) => `${key}=${data[key]}`).join('&')\<close>;
  \<open>None\<close> when a value cannot be converted to a string.
\<close>

definition sortedData :: "json \<Rightarrow> string option" where
  "sortedData data =
     (let kvs = own_entries data in
      map_option (join ''&'')
        (those (map (\<lambda>key. map_option (\<lambda>v. key @ ''='' @ v)
                       (case map_of kvs key of None \<Rightarrow> Some ''undefined'' | Some v \<Rightarrow> js_string v))
                  (sort (map fst kvs)))))"

text \<open>\<^verbatim>\<open>v?.toString()\<close>.\<close>

definition optional_toString :: "json option \<Rightarrow> error + string option" where
  "optional_toString v =
     (case v of
        None \<Rightarrow> Inr None
      | Some JNull \<Rightarrow> Inr None
      | Some w \<Rightarrow> (case js_string w of None \<Rightarrow> Inl TypeError | Some s \<Rightarrow> Inr (Some s)))"

definition payos_invalid_payload :: CallbackResult where
  "payos_invalid_payload =
     \<lparr>orderCode = None, success = False, response = JObj [(''error'', JStr ''Invalid payload'')]\<rparr>"

definition payos_invalid_signature :: CallbackResult where
  "payos_invalid_signature =
     \<lparr>orderCode = None, success = False, response = JObj [(''error'', JStr ''Invalid signature'')]\<rparr>"

definition verifyPayOSCallback :: "runtime \<Rightarrow> json \<Rightarrow> error + CallbackResult" where
  "verifyPayOSCallback rt body =
     (case body of
        JNull \<Rightarrow> Inl TypeError
      | _ \<Rightarrow>
        (let data = js_get body ''data''; signature = js_get body ''signature'' in
         if \<not> truthy data \<or> \<not> truthy signature then Inr payos_invalid_payload
         else
           (case data of
              None \<Rightarrow> Inr payos_invalid_payload
            | Some d \<Rightarrow>
                (case sortedData d of
                   None \<Rightarrow> Inl TypeError
                 | Some sorted_data \<Rightarrow>
                     (let checksumKey = or_empty (PAYOS_CHECKSUM_KEY rt);
                          expectedSignature = hmacHex rt checksumKey sorted_data
                      in if signature \<noteq> Some (JStr expectedSignature)
                         then Inr payos_invalid_signature
                         else
                           (case optional_toString (js_get d ''orderCode'') of
                              Inl e \<Rightarrow> Inl e
                            | Inr oc \<Rightarrow>
                                Inr \<lparr>orderCode = oc,
                                     success = (js_get d ''code'' = Some (JStr ''00'')),
                                     response = JObj [(''success'', JBool True)]\<rparr>))))))"

definition verifyAndParseCallback :: "runtime \<Rightarrow> PaymentProvider \<Rightarrow> json \<Rightarrow> error + CallbackResult" where
  "verifyAndParseCallback rt provider body =
     (case provider of
        ZALOPAY \<Rightarrow> verifyZaloPayCallback rt body
      | PAYOS \<Rightarrow> verifyPayOSCallback rt body)"

section \<open>Payment state store\<close>

text \<open>
  The two tables the lambdas use. Timestamps are instants in milliseconds. The primary
  key of an outbox row is assigned by the store from a counter; \<open>createdAt\<close> is the
  store's default at the insert, taken to be the instant of the call.
\<close>

datatype PaymentStatus = PENDING | COMPLETED | FAILED | CANCELED

record payment =
  pay_id :: string
  pay_orderCode :: string
  amountCents :: int
  currency :: string
  pay_provider :: string
  status :: PaymentStatus
  providerTransactionId :: "string option"
  completedAt :: "int option"
  failedAt :: "int option"

text \<open>The payload document the intake writes; the terminal instant is under one of two keys.\<close>

record event_payload =
  payment_id :: string
  order_code :: string
  amount_cents :: int
  payload_currency :: string
  payload_provider :: string
  transaction_id :: "string option"
  completed_at :: "int option"
  failed_at :: "int option"

record outbox_entry =
  ob_id :: nat
  aggregateId :: string
  aggregateType :: string
  eventType :: string
  payload :: event_payload
  published :: bool
  publishedAt :: "int option"
  retryCount :: int
  lastError :: "string option"
  createdAt :: int

record store =
  payments :: "payment list"
  outbox :: "outbox_entry list"
  nextOutboxId :: nat

text \<open>Storage failures the environment may inject into the two writes of the intake.\<close>

record store_faults =
  paymentUpdateFails :: bool
  outboxCreateFails :: bool

text \<open>
  \<^verbatim>\<open>tx.payment.update({ where: { orderCode }, data })\<close>: the row with the unique key is
  rewritten and returned; no such row is an error.
\<close>

fun update_where :: "('a \<Rightarrow> bool) \<Rightarrow> ('a \<Rightarrow> 'a) \<Rightarrow> 'a list \<Rightarrow> ('a \<times> 'a list) option" where
  "update_where P f [] = None"
| "update_where P f (x # xs) =
     (if P x then Some (f x, f x # xs)
      else (case update_where P f xs of
              None \<Rightarrow> None
            | Some (y, ys) \<Rightarrow> Some (y, x # ys)))"

definition tx_payment_update ::
  "store_faults \<Rightarrow> string \<Rightarrow> (payment \<Rightarrow> payment) \<Rightarrow> store \<Rightarrow> (error + payment) \<times> store" where
  "tx_payment_update faults oc f s =
     (if paymentUpdateFails faults then (Inl StorageError, s)
      else (case update_where (\<lambda>p. pay_orderCode p = oc) f (payments s) of
              None \<Rightarrow> (Inl RecordNotFound, s)
            | Some (p, ps) \<Rightarrow> (Inr p, s\<lparr>payments := ps\<rparr>)))"

text \<open>\<^verbatim>\<open>tx.outbox.create({ data })\<close> with \<open>published = false\<close> and \<open>retryCount = 0\<close>.\<close>

definition tx_outbox_create ::
  "store_faults \<Rightarrow> int \<Rightarrow> string \<Rightarrow> string \<Rightarrow> string \<Rightarrow> event_payload \<Rightarrow> store
     \<Rightarrow> (error + outbox_entry) \<times> store" where
  "tx_outbox_create faults now aggId aggType evType pl s =
     (if outboxCreateFails faults then (Inl StorageError, s)
      else
        (let row = \<lparr>ob_id = nextOutboxId s, aggregateId = aggId, aggregateType = aggType,
                    eventType = evType, payload = pl, published = False, publishedAt = None,
                    retryCount = 0, lastError = None, createdAt = now\<rparr>
         in (Inr row, s\<lparr>outbox := outbox s @ [row], nextOutboxId := Suc (nextOutboxId s)\<rparr>)))"

text \<open>\<^verbatim>\<open>prisma.$transaction(body)\<close>: when the body throws, every write of it is rolled back.\<close>

definition transaction :: "(store \<Rightarrow> (error + 'a) \<times> store) \<Rightarrow> store \<Rightarrow> (error + 'a) \<times> store" where
  "transaction body s =
     (case body s of
        (Inl e, _) \<Rightarrow> (Inl e, s)
      | (Inr v, s') \<Rightarrow> (Inr v, s'))"

section \<open>Payment webhook handler: the two writes\<close>

definition PAYMENT_COMPLETED :: string where
  "PAYMENT_COMPLETED = ''PAYMENT_COMPLETED''"

definition PAYMENT_FAILED :: string where
  "PAYMENT_FAILED = ''PAYMENT_FAILED''"

definition success_body :: "store_faults \<Rightarrow> int \<Rightarrow> string \<Rightarrow> store \<Rightarrow> (error + payment) \<times> store" where
  "success_body faults now oc s =
     (case tx_payment_update faults oc (\<lambda>p. p\<lparr>status := COMPLETED, completedAt := Some now\<rparr>) s of
        (Inl e, s1) \<Rightarrow> (Inl e, s1)
      | (Inr p, s1) \<Rightarrow>
          (case tx_outbox_create faults now (pay_id p) ''Payment'' PAYMENT_COMPLETED
                  \<lparr>payment_id = pay_id p, order_code = pay_orderCode p,
                   amount_cents = amountCents p, payload_currency = currency p,
                   payload_provider = pay_provider p, transaction_id = providerTransactionId p,
                   completed_at = Some now, failed_at = None\<rparr> s1 of
             (Inl e, s2) \<Rightarrow> (Inl e, s2)
           | (Inr row, s2) \<Rightarrow> (Inr p, s2)))"

definition handleSuccessPayment :: "store_faults \<Rightarrow> int \<Rightarrow> string \<Rightarrow> store \<Rightarrow> (error + unit) \<times> store" where
  "handleSuccessPayment faults now oc s =
     (case transaction (success_body faults now oc) s of
        (Inl e, s') \<Rightarrow> (Inl e, s')
      | (Inr p, s') \<Rightarrow> (Inr (), s'))"

definition failed_body :: "store_faults \<Rightarrow> int \<Rightarrow> string \<Rightarrow> store \<Rightarrow> (error + payment) \<times> store" where
  "failed_body faults now oc s =
     (case tx_payment_update faults oc (\<lambda>p. p\<lparr>status := FAILED, failedAt := Some now\<rparr>) s of
        (Inl e, s1) \<Rightarrow> (Inl e, s1)
      | (Inr p, s1) \<Rightarrow>
          (case tx_outbox_create faults now (pay_id p) ''Payment'' PAYMENT_FAILED
                  \<lparr>payment_id = pay_id p, order_code = pay_orderCode p,
                   amount_cents = amountCents p, payload_currency = currency p,
                   payload_provider = pay_provider p, transaction_id = providerTransactionId p,
                   completed_at = None, failed_at = Some now\<rparr> s1 of
             (Inl e, s2) \<Rightarrow> (Inl e, s2)
           | (Inr row, s2) \<Rightarrow> (Inr p, s2)))"

definition handleFailedPayment :: "store_faults \<Rightarrow> int \<Rightarrow> string \<Rightarrow> store \<Rightarrow> (error + unit) \<times> store" where
  "handleFailedPayment faults now oc s =
     (case transaction (failed_body faults now oc) s of
        (Inl e, s') \<Rightarrow> (Inl e, s')
      | (Inr p, s') \<Rightarrow> (Inr (), s'))"

text \<open>\<^verbatim>\<open>!result.orderCode\<close>: \<^verbatim>\<open>null\<close>, \<^verbatim>\<open>undefined\<close> and the empty string.\<close>

definition no_order_code :: "string option \<Rightarrow> bool" where
  "no_order_code oc = (case oc of None \<Rightarrow> True | Some c \<Rightarrow> c = [])"

definition handleCallback ::
  "runtime \<Rightarrow> store_faults \<Rightarrow> int \<Rightarrow> PaymentProvider \<Rightarrow> json \<Rightarrow> store \<Rightarrow> (error + json) \<times> store" where
  "handleCallback rt faults now provider callbackBody s =
     (case verifyAndParseCallback rt provider callbackBody of
        Inl e \<Rightarrow> (Inl e, s)
      | Inr result \<Rightarrow>
          if no_order_code (orderCode result) then (Inr (response result), s)
          else
            (case (if success result
                   then handleSuccessPayment faults now (the (orderCode result)) s
                   else handleFailedPayment faults now (the (orderCode result)) s) of
               (Inl e, s') \<Rightarrow> (Inl e, s')
             | (Inr u, s') \<Rightarrow> (Inr (response result), s')))"

section \<open>Outbox processor\<close>

definition BATCH_SIZE :: nat where
  "BATCH_SIZE = 100"

definition MAX_RETRIES :: int where
  "MAX_RETRIES = 5"

record topic_env =
  KAFKA_TOPIC_PAYMENT_COMPLETED :: "string option"
  KAFKA_TOPIC_PAYMENT_FAILED :: "string option"

text \<open>
  \<^verbatim>\<open>TOPIC_MAPPING[event.eventType]\<close> reads a plain object: the two own keys give a
  topic name; a name that every object inherits gives a truthy value that is no topic
  name; any other name gives \<^verbatim>\<open>undefined\<close>.
\<close>

datatype topic = TopicName string | InheritedMember

definition object_prototype_names :: "string list" where
  "object_prototype_names =
     [''constructor'', ''__proto__'', ''hasOwnProperty'', ''isPrototypeOf'',
      ''propertyIsEnumerable'', ''toLocaleString'', ''toString'', ''valueOf'',
      ''__defineGetter__'', ''__defineSetter__'', ''__lookupGetter__'', ''__lookupSetter__'']"

definition TOPIC_MAPPING :: "topic_env \<Rightarrow> string \<Rightarrow> topic option" where
  "TOPIC_MAPPING env k =
     (if k = ''PAYMENT_COMPLETED''
        then Some (TopicName (or_default (KAFKA_TOPIC_PAYMENT_COMPLETED env) ''payment.completed''))
      else if k = ''PAYMENT_FAILED''
        then Some (TopicName (or_default (KAFKA_TOPIC_PAYMENT_FAILED env) ''payment.failed''))
      else if k \<in> set object_prototype_names then Some InheritedMember
      else None)"

text \<open>
  The broker as the relay meets it: whether the producer connects, what
  \<^verbatim>\<open>producer.send\<close> does for a topic and an entry (it returns, or throws an error
  whose \<open>message\<close> may be missing), and the instant \<^verbatim>\<open>new Date()\<close> reads when the
  entry is marked.
\<close>

datatype send_result = Sent | SendFailed "string option"

record broker =
  connects :: bool
  send :: "topic \<Rightarrow> outbox_entry \<Rightarrow> send_result"
  clock :: "outbox_entry \<Rightarrow> int"

text \<open>
  \<^verbatim>\<open>prisma.outbox.findMany({ where: { published: false, retryCount: { lt: MAX_RETRIES } },
  orderBy: { createdAt: 'asc' }, take: BATCH_SIZE })\<close>.
\<close>

definition pending :: "outbox_entry \<Rightarrow> bool" where
  "pending e = (\<not> published e \<and> retryCount e < MAX_RETRIES)"

definition find_batch :: "store \<Rightarrow> outbox_entry list" where
  "find_batch s = take BATCH_SIZE (sort_key createdAt (filter pending (outbox s)))"

text \<open>\<^verbatim>\<open>prisma.outbox.update({ where: { id }, data })\<close>; no row with the id is an error.\<close>

definition prisma_outbox_update :: "nat \<Rightarrow> (outbox_entry \<Rightarrow> outbox_entry) \<Rightarrow> store \<Rightarrow> (error + unit) \<times> store" where
  "prisma_outbox_update i f s =
     (case update_where (\<lambda>r. ob_id r = i) f (outbox s) of
        None \<Rightarrow> (Inl RecordNotFound, s)
      | Some (r, rs) \<Rightarrow> (Inr (), s\<lparr>outbox := rs\<rparr>))"

text \<open>\<^verbatim>\<open>error.message?.substring(0, 500) || "Unknown error"\<close>.\<close>

definition error_text :: "string option \<Rightarrow> string" where
  "error_text msg =
     (case msg of
        None \<Rightarrow> ''Unknown error''
      | Some m \<Rightarrow> if take 500 m = [] then ''Unknown error'' else take 500 m)"

text \<open>
  The message of the error that \<^verbatim>\<open>prisma.outbox.update\<close> throws when no row has the
  id. Nothing depends on its wording: the \<^verbatim>\<open>catch\<close> block that would store it
  updates the same missing row.
\<close>

definition prisma_not_found_message :: string where
  "prisma_not_found_message = ''Record to update not found.''"

text \<open>
  \<^verbatim>\<open>publishEvent(event)\<close>: \<open>Inr ()\<close> is a fulfilled promise, \<open>Inl\<close> a rejected one. When
  the mark-published update throws, the \<^verbatim>\<open>catch\<close> block runs its own update with
  that error's message, and rethrows.
\<close>

definition record_failure :: "outbox_entry \<Rightarrow> string \<Rightarrow> store \<Rightarrow> (error + unit) \<times> store" where
  "record_failure event msg s =
     prisma_outbox_update (ob_id event)
       (\<lambda>r. r\<lparr>retryCount := retryCount r + 1, lastError := Some msg\<rparr>) s"

definition publishEvent :: "topic_env \<Rightarrow> broker \<Rightarrow> outbox_entry \<Rightarrow> store \<Rightarrow> (error + unit) \<times> store" where
  "publishEvent env b event s =
     (case TOPIC_MAPPING env (eventType event) of
        None \<Rightarrow> record_failure event (''Unknown event type: '' @ eventType event) s
      | Some tp \<Rightarrow>
          (case send b tp event of
             Sent \<Rightarrow>
               (case prisma_outbox_update (ob_id event)
                       (\<lambda>r. r\<lparr>published := True, publishedAt := Some (clock b event)\<rparr>) s of
                  (Inr u, s') \<Rightarrow> (Inr (), s')
                | (Inl e, s') \<Rightarrow>
                    (case record_failure event (error_text (Some prisma_not_found_message)) s' of
                       (Inl e', s'') \<Rightarrow> (Inl e', s'')
                     | (Inr u, s'') \<Rightarrow> (Inl e, s'')))
           | SendFailed msg \<Rightarrow>
               (case record_failure event (error_text msg) s of
                  (Inl e', s') \<Rightarrow> (Inl e', s')
                | (Inr u, s') \<Rightarrow> (Inl BrokerError, s'))))"

text \<open>
  \<^verbatim>\<open>Promise.allSettled(events.map(publishEvent))\<close>: every entry of the batch is
  processed whatever the others do. The calls write rows with different ids, so they
  are run here one after the other in batch order; the result counts the fulfilled and
  the rejected promises.
\<close>

fun publish_all :: "topic_env \<Rightarrow> broker \<Rightarrow> outbox_entry list \<Rightarrow> store \<Rightarrow> (nat \<times> nat) \<times> store" where
  "publish_all env b [] s = ((0, 0), s)"
| "publish_all env b (event # events) s =
     (case publishEvent env b event s of
        (r, s') \<Rightarrow>
          (case publish_all env b events s' of
             ((succeeded, failed), s'') \<Rightarrow>
               (case r of
                  Inr u \<Rightarrow> ((Suc succeeded, failed), s'')
                | Inl e \<Rightarrow> ((succeeded, Suc failed), s''))))"

definition outbox_processor_handler :: "topic_env \<Rightarrow> broker \<Rightarrow> store \<Rightarrow> (error + unit) \<times> store" where
  "outbox_processor_handler env b s =
     (if \<not> connects b then (Inl BrokerError, s)
      else
        (let events = find_batch s in
         if length events = 0 then (Inr (), s)
         else (Inr (), snd (publish_all env b events s))))"

section \<open>Outbox cleanup\<close>

text \<open>
  \<^verbatim>\<open>parseInt(process.env.RETENTION_DAYS || '7', 10)\<close>, for a variable that is unset or
  holds a decimal number.
\<close>

definition RETENTION_DAYS :: "int option \<Rightarrow> int" where
  "RETENTION_DAYS configured = (case configured of None \<Rightarrow> 7 | Some d \<Rightarrow> d)"

text \<open>
  \<^verbatim>\<open>cutoffDate.setDate(cutoffDate.getDate() - RETENTION_DAYS)\<close> in the lambda's time zone
  (UTC, where every day has 86400000 milliseconds). A \<^verbatim>\<open>Date\<close> holds an instant at
  most 8640000000000000 milliseconds from the epoch; beyond that \<^verbatim>\<open>setDate\<close> leaves
  an Invalid Date, which is \<open>None\<close> here.
\<close>

definition cutoffDate :: "int \<Rightarrow> int \<Rightarrow> int option" where
  "cutoffDate now days =
     (let t = now - days * 86400000 in
      if abs t \<le> 8640000000000000 then Some t else None)"

definition old_published :: "int \<Rightarrow> outbox_entry \<Rightarrow> bool" where
  "old_published cutoff e =
     (published e \<and> (case publishedAt e of None \<Rightarrow> False | Some t \<Rightarrow> t < cutoff))"

text \<open>
  \<^verbatim>\<open>prisma.outbox.deleteMany({ where: { published: true, publishedAt: { lt: cutoffDate } } })\<close>
  and its count; the store client throws on an Invalid Date, before anything is deleted.
\<close>

definition deleteOldPublishedEvents :: "int option \<Rightarrow> int \<Rightarrow> store \<Rightarrow> (error + nat) \<times> store" where
  "deleteOldPublishedEvents configured now s =
     (case cutoffDate now (RETENTION_DAYS configured) of
        None \<Rightarrow> (Inl InvalidDate, s)
      | Some cutoff \<Rightarrow>
          (Inr (length (filter (old_published cutoff) (outbox s))),
           s\<lparr>outbox := filter (\<lambda>e. \<not> old_published cutoff e) (outbox s)\<rparr>))"

definition stuck :: "outbox_entry \<Rightarrow> bool" where
  "stuck e = (\<not> published e \<and> retryCount e \<ge> MAX_RETRIES)"

definition monitorFailedEvents :: "store \<Rightarrow> outbox_entry list" where
  "monitorFailedEvents s = rev (sort_key createdAt (filter stuck (outbox s)))"

text \<open>
  The handler: the count it deleted, the stuck entries it reported, the store it leaves;
  an error of the deletion is logged and thrown again.
\<close>

definition outbox_cleanup_handler ::
  "int option \<Rightarrow> int \<Rightarrow> store \<Rightarrow> (error + nat \<times> outbox_entry list) \<times> store" where
  "outbox_cleanup_handler configured now s =
     (case deleteOldPublishedEvents configured now s of
        (Inl e, s') \<Rightarrow> (Inl e, s')
      | (Inr deletedCount, s') \<Rightarrow> (Inr (deletedCount, monitorFailedEvents s'), s'))"

section \<open>Runs of the three lambdas\<close>

text \<open>
  One invocation of a lambda against the store: a provider callback, a pass of the outbox
  processor, a run of the outbox cleanup. Invocations are taken one after the other (the
  processor and the cleanup are deployed with concurrency 1).
\<close>

datatype operation =
    Callback runtime store_faults int PaymentProvider json
  | RelayPass topic_env broker
  | Sweep "int option" int

fun apply_operation :: "operation \<Rightarrow> store \<Rightarrow> store" where
  "apply_operation (Callback rt faults now provider body) s =
     snd (handleCallback rt faults now provider body s)"
| "apply_operation (RelayPass env b) s = snd (outbox_processor_handler env b s)"
| "apply_operation (Sweep configured now) s = snd (outbox_cleanup_handler configured now s)"

definition run_operations :: "operation list \<Rightarrow> store \<Rightarrow> store" where
  "run_operations ops s = fold apply_operation ops s"

section \<open>Notions used in the proofs\<close>

text \<open>
  The row that \<open>publishEvent\<close> leaves in place of a row \<open>r\<close> with the id of \<open>event\<close>:
  the three updates of the function, by the branch it takes.
\<close>

definition written_row :: "topic_env \<Rightarrow> broker \<Rightarrow> outbox_entry \<Rightarrow> outbox_entry \<Rightarrow> outbox_entry" where
  "written_row env b event r =
     (case TOPIC_MAPPING env (eventType event) of
        None \<Rightarrow> r\<lparr>retryCount := retryCount r + 1,
                   lastError := Some (''Unknown event type: '' @ eventType event)\<rparr>
      | Some tp \<Rightarrow>
          (case send b tp event of
             Sent \<Rightarrow> r\<lparr>published := True, publishedAt := Some (clock b event)\<rparr>
           | SendFailed msg \<Rightarrow> r\<lparr>retryCount := retryCount r + 1, lastError := Some (error_text msg)\<rparr>))"

text \<open>The primary key of the outbox: ids are distinct and below the store's counter.\<close>

definition outbox_keyed :: "store \<Rightarrow> bool" where
  "outbox_keyed s =
     (distinct (map ob_id (outbox s)) \<and> list_all (\<lambda>e. ob_id e < nextOutboxId s) (outbox s))"

text \<open>
  How the outbox of \<open>s'\<close> relates to the one of an earlier store \<open>s\<close>: a row of \<open>s'\<close> with
  an id that \<open>s\<close> had handed out comes from the row of \<open>s\<close> with that id, with no smaller
  \<open>retryCount\<close>, and is that very row if it was published.
\<close>

definition evolves :: "store \<Rightarrow> store \<Rightarrow> bool" where
  "evolves s s' =
     (nextOutboxId s \<le> nextOutboxId s' \<and>
      list_all (\<lambda>e'. ob_id e' < nextOutboxId s \<longrightarrow>
                  list_ex (\<lambda>e. ob_id e = ob_id e' \<and> retryCount e \<le> retryCount e' \<and>
                                (published e \<longrightarrow> e' = e)) (outbox s))
        (outbox s'))"

definition published_dated :: "store \<Rightarrow> bool" where
  "published_dated s = list_all (\<lambda>e. published e \<longrightarrow> publishedAt e \<noteq> None) (outbox s)"

section \<open>Concrete inputs\<close>

text \<open>
  Inputs on which the theorems below are run. \<open>demo_hmac\<close> stands in for HMAC-SHA256
  (an injective keyed tag) and \<open>demo_parse\<close> for \<^verbatim>\<open>JSON.parse\<close> on the documents used.
\<close>

definition demo_hmac :: "string \<Rightarrow> string \<Rightarrow> string" where
  "demo_hmac key msg = ''hmac['' @ key @ '']('' @ msg @ '')''"

definition zalo_data :: string where
  \<open>zalo_data = ''{"app_trans_id":"250101_ORD-1001"}''\<close>

definition zalo_data_two_underscores :: string where
  \<open>zalo_data_two_underscores = ''{"app_trans_id":"250101_ORD_1001"}''\<close>

definition demo_parse :: "string \<Rightarrow> json option" where
  "demo_parse text_in =
     (if text_in = zalo_data then Some (JObj [(''app_trans_id'', JStr ''250101_ORD-1001'')])
      else if text_in = zalo_data_two_underscores
        then Some (JObj [(''app_trans_id'', JStr ''250101_ORD_1001'')])
      else None)"

definition demo_rt :: runtime where
  "demo_rt = \<lparr>hmacHex = demo_hmac, jsonParse = demo_parse,
              ZALOPAY_KEY2 = Some ''key2'', PAYOS_CHECKSUM_KEY = Some ''checksum''\<rparr>"

definition demo_rt_unset :: runtime where
  "demo_rt_unset = \<lparr>hmacHex = demo_hmac, jsonParse = demo_parse,
                    ZALOPAY_KEY2 = None, PAYOS_CHECKSUM_KEY = None\<rparr>"

definition zalo_body :: "string \<Rightarrow> string \<Rightarrow> json" where
  "zalo_body key d = JObj [(''data'', JStr d), (''mac'', JStr (demo_hmac key d))]"

definition payos_doc :: "(string \<times> json) list" where
  "payos_doc = [(''orderCode'', JNum ''1001''), (''amount'', JNum ''250000''), (''code'', JStr ''00'')]"

definition payos_doc_reordered :: "(string \<times> json) list" where
  "payos_doc_reordered = [(''code'', JStr ''00''), (''orderCode'', JNum ''1001''), (''amount'', JNum ''250000'')]"

definition demo_payment :: "string \<Rightarrow> payment" where
  "demo_payment oc =
     \<lparr>pay_id = ''pay-1'', pay_orderCode = oc, amountCents = 250000, currency = ''VND'',
      pay_provider = ''ZALOPAY'', status = PENDING, providerTransactionId = Some ''zp-77'',
      completedAt = None, failedAt = None\<rparr>"

definition demo_store :: "string \<Rightarrow> store" where
  "demo_store oc = \<lparr>payments = [demo_payment oc], outbox = [], nextOutboxId = 0\<rparr>"

definition no_faults :: store_faults where
  "no_faults = \<lparr>paymentUpdateFails = False, outboxCreateFails = False\<rparr>"

definition demo_entry :: "nat \<Rightarrow> bool \<Rightarrow> int option \<Rightarrow> int \<Rightarrow> int \<Rightarrow> outbox_entry" where
  "demo_entry i pub pubAt retries created =
     \<lparr>ob_id = i, aggregateId = ''pay-1'', aggregateType = ''Payment'',
      eventType = ''PAYMENT_COMPLETED'',
      payload = \<lparr>payment_id = ''pay-1'', order_code = ''ORD-1001'', amount_cents = 250000,
                 payload_currency = ''VND'', payload_provider = ''ZALOPAY'',
                 transaction_id = Some ''zp-77'', completed_at = Some 1000, failed_at = None\<rparr>,
      published = pub, publishedAt = pubAt, retryCount = retries, lastError = None,
      createdAt = created\<rparr>"

definition no_topic_env :: topic_env where
  "no_topic_env = \<lparr>KAFKA_TOPIC_PAYMENT_COMPLETED = None, KAFKA_TOPIC_PAYMENT_FAILED = None\<rparr>"

definition broker_down :: broker where
  "broker_down = \<lparr>connects = True, send = (\<lambda>tp e. SendFailed (Some ''Connection timeout'')),
                  clock = (\<lambda>e. 5000)\<rparr>"

definition broker_unreachable :: broker where
  "broker_unreachable = \<lparr>connects = False, send = (\<lambda>tp e. SendFailed (Some ''Connection timeout'')),
                         clock = (\<lambda>e. 5000)\<rparr>"

definition broker_up :: broker where
  "broker_up = \<lparr>connects = True, send = (\<lambda>tp e. Sent), clock = (\<lambda>e. 5000)\<rparr>"

definition demo_outbox :: "outbox_entry list" where
  "demo_outbox =
     [demo_entry 0 False None 0 300,
      demo_entry 1 False None 5 100,
      demo_entry 2 True (Some 1000) 0 50,
      demo_entry 3 False None 2 200]"

definition demo_relay_store :: store where
  "demo_relay_store = \<lparr>payments = [], outbox = demo_outbox, nextOutboxId = 4\<rparr>"

definition eight_days_after_1000 :: int where
  "eight_days_after_1000 = 1000 + 8 * 86400000"

section \<open>Webhook intake: both writes or neither\<close>

lemma update_where_None: "(update_where P f xs = None) = (\<forall>x\<in>set xs. \<not> P x)"
  by (induction xs) (auto split: option.splits)

lemma update_where_Some:
  "update_where P f xs = Some (y, ys) \<Longrightarrow>
     \<exists>i<length xs. P (xs ! i) \<and> (\<forall>j<i. \<not> P (xs ! j)) \<and> y = f (xs ! i) \<and> ys = xs[i := f (xs ! i)]"
proof (induction xs arbitrary: y ys)
  case Nil
  then show ?case by simp
next
  case (Cons x xs)
  show ?case
  proof (cases "P x")
    case True
    with Cons.prems have "y = f x" "ys = f x # xs" by auto
    with True show ?thesis by (intro exI [of _ 0]) simp
  next
    case False
    with Cons.prems obtain zs where u: "update_where P f xs = Some (y, zs)" and ys: "ys = x # zs"
      by (auto split: option.splits)
    from Cons.IH [OF u] obtain i where i: "i < length xs" "P (xs ! i)" "\<forall>j<i. \<not> P (xs ! j)"
      "y = f (xs ! i)" "zs = xs[i := f (xs ! i)]" by blast
    have "\<forall>j<Suc i. \<not> P ((x # xs) ! j)"
      using False i(3) by (auto simp: less_Suc_eq_0_disj)
    with i ys show ?thesis by (intro exI [of _ "Suc i"]) simp
  qed
qed

lemma success_body_cases:
  "success_body faults now oc s = (r, s') \<Longrightarrow>
     (\<exists>e. r = Inl e) \<or>
     (\<exists>i<length (payments s). pay_orderCode (payments s ! i) = oc \<and>
        s' = s\<lparr>payments := (payments s)[i := (payments s ! i)\<lparr>status := COMPLETED, completedAt := Some now\<rparr>],
               outbox := outbox s @
                 [\<lparr>ob_id = nextOutboxId s, aggregateId = pay_id (payments s ! i), aggregateType = ''Payment'',
                   eventType = PAYMENT_COMPLETED,
                   payload = \<lparr>payment_id = pay_id (payments s ! i), order_code = pay_orderCode (payments s ! i),
                     amount_cents = amountCents (payments s ! i), payload_currency = currency (payments s ! i),
                     payload_provider = pay_provider (payments s ! i),
                     transaction_id = providerTransactionId (payments s ! i),
                     completed_at = Some now, failed_at = None\<rparr>,
                   published = False, publishedAt = None, retryCount = 0, lastError = None,
                   createdAt = now\<rparr>],
               nextOutboxId := Suc (nextOutboxId s)\<rparr>)"
  unfolding success_body_def tx_payment_update_def tx_outbox_create_def
  by (auto split: if_splits option.splits prod.splits sum.splits dest!: update_where_Some simp: Let_def)

lemma failed_body_cases:
  "failed_body faults now oc s = (r, s') \<Longrightarrow>
     (\<exists>e. r = Inl e) \<or>
     (\<exists>i<length (payments s). pay_orderCode (payments s ! i) = oc \<and>
        s' = s\<lparr>payments := (payments s)[i := (payments s ! i)\<lparr>status := FAILED, failedAt := Some now\<rparr>],
               outbox := outbox s @
                 [\<lparr>ob_id = nextOutboxId s, aggregateId = pay_id (payments s ! i), aggregateType = ''Payment'',
                   eventType = PAYMENT_FAILED,
                   payload = \<lparr>payment_id = pay_id (payments s ! i), order_code = pay_orderCode (payments s ! i),
                     amount_cents = amountCents (payments s ! i), payload_currency = currency (payments s ! i),
                     payload_provider = pay_provider (payments s ! i),
                     transaction_id = providerTransactionId (payments s ! i),
                     completed_at = None, failed_at = Some now\<rparr>,
                   published = False, publishedAt = None, retryCount = 0, lastError = None,
                   createdAt = now\<rparr>],
               nextOutboxId := Suc (nextOutboxId s)\<rparr>)"
  unfolding failed_body_def tx_payment_update_def tx_outbox_create_def
  by (auto split: if_splits option.splits prod.splits sum.splits dest!: update_where_Some simp: Let_def)

lemma success_body_error:
  "(\<exists>e. fst (success_body faults now oc s) = Inl e) =
     (paymentUpdateFails faults \<or> outboxCreateFails faults \<or> (\<forall>p\<in>set (payments s). pay_orderCode p \<noteq> oc))"
  using update_where_None [of "\<lambda>p. pay_orderCode p = oc"
      "\<lambda>p. p\<lparr>status := COMPLETED, completedAt := Some now\<rparr>" "payments s"]
  unfolding success_body_def tx_payment_update_def tx_outbox_create_def
  by (cases "update_where (\<lambda>p. pay_orderCode p = oc)
        (\<lambda>p. p\<lparr>status := COMPLETED, completedAt := Some now\<rparr>) (payments s)")
     (auto simp: Let_def)

lemma failed_body_error:
  "(\<exists>e. fst (failed_body faults now oc s) = Inl e) =
     (paymentUpdateFails faults \<or> outboxCreateFails faults \<or> (\<forall>p\<in>set (payments s). pay_orderCode p \<noteq> oc))"
  using update_where_None [of "\<lambda>p. pay_orderCode p = oc"
      "\<lambda>p. p\<lparr>status := FAILED, failedAt := Some now\<rparr>" "payments s"]
  unfolding failed_body_def tx_payment_update_def tx_outbox_create_def
  by (cases "update_where (\<lambda>p. pay_orderCode p = oc)
        (\<lambda>p. p\<lparr>status := FAILED, failedAt := Some now\<rparr>) (payments s)")
     (auto simp: Let_def)

lemma transaction_cases:
  "transaction body s = (r, s') \<Longrightarrow>
     (\<exists>e. r = Inl e \<and> s' = s \<and> fst (body s) = Inl e) \<or> (\<exists>v. r = Inr v \<and> body s = (Inr v, s'))"
  unfolding transaction_def by (auto split: prod.splits sum.splits)

text \<open>
  C1. Whatever the store does to the two writes, \<open>handleSuccessPayment\<close> and
  \<open>handleFailedPayment\<close> end in one of two ways. Either they throw and the store is
  exactly the one they started from; or they return, the payment row with the order code
  has the terminal status and its timestamp, and the outbox has exactly one more row, with
  the event type of the outcome, \<open>published = False\<close>, \<open>retryCount = 0\<close> and the payload
  snapshot (payment id, order code, amount, currency, provider, transaction id, terminal
  timestamp). They throw exactly when a write fails or no payment has the order code.
\<close>

theorem intake_writes_atomic:
  assumes "handleSuccessPayment faults now oc s = (r1, s1)"
    and "handleFailedPayment faults now oc s = (r2, s2)"
  shows "((\<exists>e. r1 = Inl e \<and> s1 = s) \<or>
          (r1 = Inr () \<and>
           (\<exists>i<length (payments s). pay_orderCode (payments s ! i) = oc \<and>
              s1 = s\<lparr>payments := (payments s)[i := (payments s ! i)\<lparr>status := COMPLETED, completedAt := Some now\<rparr>],
                     outbox := outbox s @
                       [\<lparr>ob_id = nextOutboxId s, aggregateId = pay_id (payments s ! i),
                         aggregateType = ''Payment'', eventType = PAYMENT_COMPLETED,
                         payload = \<lparr>payment_id = pay_id (payments s ! i),
                           order_code = pay_orderCode (payments s ! i),
                           amount_cents = amountCents (payments s ! i),
                           payload_currency = currency (payments s ! i),
                           payload_provider = pay_provider (payments s ! i),
                           transaction_id = providerTransactionId (payments s ! i),
                           completed_at = Some now, failed_at = None\<rparr>,
                         published = False, publishedAt = None, retryCount = 0, lastError = None,
                         createdAt = now\<rparr>],
                     nextOutboxId := Suc (nextOutboxId s)\<rparr>)))
       \<and> ((\<exists>e. r2 = Inl e \<and> s2 = s) \<or>
          (r2 = Inr () \<and>
           (\<exists>i<length (payments s). pay_orderCode (payments s ! i) = oc \<and>
              s2 = s\<lparr>payments := (payments s)[i := (payments s ! i)\<lparr>status := FAILED, failedAt := Some now\<rparr>],
                     outbox := outbox s @
                       [\<lparr>ob_id = nextOutboxId s, aggregateId = pay_id (payments s ! i),
                         aggregateType = ''Payment'', eventType = PAYMENT_FAILED,
                         payload = \<lparr>payment_id = pay_id (payments s ! i),
                           order_code = pay_orderCode (payments s ! i),
                           amount_cents = amountCents (payments s ! i),
                           payload_currency = currency (payments s ! i),
                           payload_provider = pay_provider (payments s ! i),
                           transaction_id = providerTransactionId (payments s ! i),
                           completed_at = None, failed_at = Some now\<rparr>,
                         published = False, publishedAt = None, retryCount = 0, lastError = None,
                         createdAt = now\<rparr>],
                     nextOutboxId := Suc (nextOutboxId s)\<rparr>)))
       \<and> ((\<exists>e. r1 = Inl e) =
            (paymentUpdateFails faults \<or> outboxCreateFails faults \<or>
             (\<forall>p\<in>set (payments s). pay_orderCode p \<noteq> oc)))
       \<and> ((\<exists>e. r2 = Inl e) =
            (paymentUpdateFails faults \<or> outboxCreateFails faults \<or>
             (\<forall>p\<in>set (payments s). pay_orderCode p \<noteq> oc)))"
    (is "?A \<and> ?B \<and> ?C \<and> ?D")
proof -
  obtain r s' where t: "transaction (success_body faults now oc) s = (r, s')"
    by (cases "transaction (success_body faults now oc) s")
  obtain q u' where u: "transaction (failed_body faults now oc) s = (q, u')"
    by (cases "transaction (failed_body faults now oc) s")
  from transaction_cases [OF t] have a: ?A
  proof
    assume "\<exists>e. r = Inl e \<and> s' = s \<and> fst (success_body faults now oc s) = Inl e"
    with t assms(1) show ?thesis by (auto simp: handleSuccessPayment_def)
  next
    assume "\<exists>v. r = Inr v \<and> success_body faults now oc s = (Inr v, s')"
    then obtain v where v: "r = Inr v" "success_body faults now oc s = (Inr v, s')" by blast
    from success_body_cases [OF v(2)] t v(1) assms(1) show ?thesis
      by (auto simp: handleSuccessPayment_def)
  qed
  from transaction_cases [OF u] have b: ?B
  proof
    assume "\<exists>e. q = Inl e \<and> u' = s \<and> fst (failed_body faults now oc s) = Inl e"
    with u assms(2) show ?thesis by (auto simp: handleFailedPayment_def)
  next
    assume "\<exists>v. q = Inr v \<and> failed_body faults now oc s = (Inr v, u')"
    then obtain v where v: "q = Inr v" "failed_body faults now oc s = (Inr v, u')" by blast
    from failed_body_cases [OF v(2)] u v(1) assms(2) show ?thesis
      by (auto simp: handleFailedPayment_def)
  qed
  have "(\<exists>e. r1 = Inl e) = (\<exists>e. fst (success_body faults now oc s) = Inl e)"
    using transaction_cases [OF t] t assms(1) by (auto simp: handleSuccessPayment_def)
  then have c: ?C by (simp only: success_body_error)
  have "(\<exists>e. r2 = Inl e) = (\<exists>e. fst (failed_body faults now oc s) = Inl e)"
    using transaction_cases [OF u] u assms(2) by (auto simp: handleFailedPayment_def)
  then have d: ?D by (simp only: failed_body_error)
  from a b c d show ?thesis by (intro conjI)
qed

theorem intake_writes_atomic_witness:
  "fst (handleSuccessPayment no_faults 1000 ''ORD-1001'' (demo_store ''ORD-1001'')) = Inr ()
   \<and> length (outbox (snd (handleSuccessPayment no_faults 1000 ''ORD-1001'' (demo_store ''ORD-1001'')))) = 1
   \<and> fst (handleFailedPayment no_faults 1000 ''ORD-1001'' (demo_store ''ORD-1001'')) = Inr ()
   \<and> length (outbox (snd (handleFailedPayment no_faults 1000 ''ORD-1001'' (demo_store ''ORD-1001'')))) = 1
   \<and> (\<exists>e. fst (handleSuccessPayment no_faults 1000 ''ORD-9'' (demo_store ''ORD-1001'')) = Inl e)
   \<and> snd (handleSuccessPayment no_faults 1000 ''ORD-9'' (demo_store ''ORD-1001'')) = demo_store ''ORD-1001''
   \<and> snd (handleFailedPayment \<lparr>paymentUpdateFails = False, outboxCreateFails = True\<rparr> 1000 ''ORD-1001''
            (demo_store ''ORD-1001'')) = demo_store ''ORD-1001''"
proof -
  have n: "paymentUpdateFails no_faults = False" "outboxCreateFails no_faults = False"
    "payments (demo_store ''ORD-1001'') = [demo_payment ''ORD-1001'']"
    "outbox (demo_store ''ORD-1001'') = []"
    "pay_orderCode (demo_payment ''ORD-1001'') = ''ORD-1001''"
    by (simp_all add: no_faults_def demo_store_def demo_payment_def)
  have w1: "fst (handleSuccessPayment no_faults 1000 ''ORD-1001'' (demo_store ''ORD-1001'')) = Inr ()
     \<and> length (outbox (snd (handleSuccessPayment no_faults 1000 ''ORD-1001'' (demo_store ''ORD-1001'')))) = 1
     \<and> fst (handleFailedPayment no_faults 1000 ''ORD-1001'' (demo_store ''ORD-1001'')) = Inr ()
     \<and> length (outbox (snd (handleFailedPayment no_faults 1000 ''ORD-1001'' (demo_store ''ORD-1001'')))) = 1"
    using intake_writes_atomic [OF surjective_pairing surjective_pairing, of no_faults 1000 "''ORD-1001''" "demo_store ''ORD-1001''"]
    by (auto simp: n)
  have w2: "(\<exists>e. fst (handleSuccessPayment no_faults 1000 ''ORD-9'' (demo_store ''ORD-1001'')) = Inl e)
     \<and> snd (handleSuccessPayment no_faults 1000 ''ORD-9'' (demo_store ''ORD-1001'')) = demo_store ''ORD-1001''"
    using intake_writes_atomic [OF surjective_pairing surjective_pairing, of no_faults 1000 "''ORD-9''" "demo_store ''ORD-1001''"]
    by (auto simp: n)
  have w3: "snd (handleFailedPayment \<lparr>paymentUpdateFails = False, outboxCreateFails = True\<rparr> 1000 ''ORD-1001''
            (demo_store ''ORD-1001'')) = demo_store ''ORD-1001''"
    using intake_writes_atomic [OF surjective_pairing surjective_pairing, of "\<lparr>paymentUpdateFails = False, outboxCreateFails = True\<rparr>"
        1000 "''ORD-1001''" "demo_store ''ORD-1001''"]
    by auto
  from w1 w2 w3 show ?thesis by (intro conjI) simp_all
qed

section \<open>Webhook intake: a replayed callback\<close>

text \<open>
  C2. The callback for order \<^verbatim>\<open>ORD-1001\<close> is delivered at instant 1000 and again at
  instant 2000. The second delivery finds the payment already \<open>COMPLETED\<close>; the handler
  rewrites \<open>completedAt\<close> and appends a second outbox row. The same holds for a failure
  delivered twice.
\<close>

theorem replayed_callback_appends_second_event:
  "(case handleCallback demo_rt no_faults 1000 ZALOPAY (zalo_body ''key2'' zalo_data)
           (demo_store ''ORD-1001'') of
      (r1, s1) \<Rightarrow>
        (case handleCallback demo_rt no_faults 2000 ZALOPAY (zalo_body ''key2'' zalo_data) s1 of
           (r2, s2) \<Rightarrow>
             r1 = Inr zalopay_accepted \<and> r2 = Inr zalopay_accepted
             \<and> map status (payments s1) = [COMPLETED]
             \<and> map completedAt (payments s1) = [Some 1000]
             \<and> map eventType (outbox s1) = [PAYMENT_COMPLETED]
             \<and> map status (payments s2) = [COMPLETED]
             \<and> map completedAt (payments s2) = [Some 2000]
             \<and> map eventType (outbox s2) = [PAYMENT_COMPLETED, PAYMENT_COMPLETED]))
   \<and> (case handleFailedPayment no_faults 1000 ''ORD-1001'' (demo_store ''ORD-1001'') of
      (r1, s1) \<Rightarrow>
        (case handleFailedPayment no_faults 2000 ''ORD-1001'' s1 of
           (r2, s2) \<Rightarrow>
             map status (payments s1) = [FAILED] \<and> map failedAt (payments s1) = [Some 1000]
             \<and> map failedAt (payments s2) = [Some 2000]
             \<and> map eventType (outbox s2) = [PAYMENT_FAILED, PAYMENT_FAILED]))"
  by code_simp

section \<open>ZaloPay verifier\<close>

lemma split_on_nonempty: "split_on c t \<noteq> []"
  by (induction t) (auto split: list.splits)

lemma split_on_hd: "hd (split_on c t) = takeWhile (\<lambda>x. x \<noteq> c) t"
  by (induction t) (auto split: list.splits simp: split_on_nonempty)

lemma split_on_tl:
  "tl (split_on c t) = (if c \<in> set t then split_on c (tl (dropWhile (\<lambda>x. x \<noteq> c) t)) else [])"
  by (induction t) (auto split: list.splits simp: split_on_nonempty)

lemma split_on_second:
  "at_index (split_on c t) (Suc 0) =
     (if c \<in> set t then Some (takeWhile (\<lambda>x. x \<noteq> c) (tl (dropWhile (\<lambda>x. x \<noteq> c) t))) else None)"
proof -
  obtain w ws where s: "split_on c t = w # ws"
    using split_on_nonempty [of c t] by (cases "split_on c t") auto
  have ws: "ws = (if c \<in> set t then split_on c (tl (dropWhile (\<lambda>x. x \<noteq> c) t)) else [])"
    using split_on_tl [of c t] s by simp
  show ?thesis
  proof (cases "c \<in> set t")
    case True
    obtain v vs where v: "split_on c (tl (dropWhile (\<lambda>x. x \<noteq> c) t)) = v # vs"
      using split_on_nonempty [of c "tl (dropWhile (\<lambda>x. x \<noteq> c) t)"]
      by (cases "split_on c (tl (dropWhile (\<lambda>x. x \<noteq> c) t))") auto
    have "v = takeWhile (\<lambda>x. x \<noteq> c) (tl (dropWhile (\<lambda>x. x \<noteq> c) t))"
      using split_on_hd [of c "tl (dropWhile (\<lambda>x. x \<noteq> c) t)"] v by simp
    with True s ws v show ?thesis by (simp add: at_index_def)
  next
    case False
    with s ws show ?thesis by (simp add: at_index_def)
  qed
qed


lemma app_trans_order_code_string:
  "js_get doc ''app_trans_id'' = Some (JStr t) \<Longrightarrow>
   app_trans_order_code doc =
     Inr (Some (let seg = takeWhile (\<lambda>x. x \<noteq> CHR ''_'') (tl (dropWhile (\<lambda>x. x \<noteq> CHR ''_'') t))
                in if CHR ''_'' \<in> set t \<and> seg \<noteq> [] then seg else t))"
  unfolding app_trans_order_code_def Let_def
  by (cases doc) (auto simp: split_on_second js_get_def)

lemma zalopay_result_cases:
  "verifyZaloPayCallback rt body = Inr res \<Longrightarrow>
     res = zalopay_rejected \<or>
     (\<exists>d doc oc. js_get body ''data'' = Some (JStr d) \<and> d \<noteq> [] \<and>
        js_get body ''mac'' = Some (JStr (hmacHex rt (or_empty (ZALOPAY_KEY2 rt)) d)) \<and>
        jsonParse rt d = Some doc \<and> app_trans_order_code doc = Inr oc \<and>
        res = \<lparr>orderCode = oc, success = True, response = zalopay_accepted\<rparr>)"
  unfolding verifyZaloPayCallback_def
  by (cases body) (auto simp: Let_def split: if_splits option.splits json.splits sum.splits)


lemma js_get_JNull: "js_get JNull k = None"
  by (simp add: js_get_def)

text \<open>
  C3 (as amended). For a body other than \<^verbatim>\<open>null\<close>, the ZaloPay verifier returns the
  unauthenticated result (no order code, response \<^verbatim>\<open>{return_code: -1}\<close>) exactly when
  \<open>data\<close> or \<open>mac\<close> is missing or falsy (the empty string included), or \<open>data\<close> is a
  string whose HMAC under the shared key differs from \<open>mac\<close>. It reports an authentic
  callback exactly when \<open>data\<close> is a non-empty string, \<open>mac\<close> is the hex HMAC of it, and
  \<open>data\<close> parses as a document from which the order code can be read. On the
  unauthenticated result \<open>handleCallback\<close> returns the response and the store as it was;
  and whenever \<open>handleCallback\<close> changes the store, the MAC was checked and matched.
\<close>

theorem zalopay_verifier_decision:
  "((verifyZaloPayCallback rt body = Inr zalopay_rejected) =
      (body \<noteq> JNull \<and>
       (\<not> truthy (js_get body ''data'') \<or> \<not> truthy (js_get body ''mac'') \<or>
        (\<exists>d. js_get body ''data'' = Some (JStr d) \<and>
             js_get body ''mac'' \<noteq> Some (JStr (hmacHex rt (or_empty (ZALOPAY_KEY2 rt)) d))))))
   \<and> ((\<exists>oc. verifyZaloPayCallback rt body =
              Inr \<lparr>orderCode = oc, success = True, response = zalopay_accepted\<rparr>) =
      (\<exists>d. d \<noteq> [] \<and> js_get body ''data'' = Some (JStr d) \<and>
           hmacHex rt (or_empty (ZALOPAY_KEY2 rt)) d \<noteq> [] \<and>
           js_get body ''mac'' = Some (JStr (hmacHex rt (or_empty (ZALOPAY_KEY2 rt)) d)) \<and>
           (\<exists>doc oc. jsonParse rt d = Some doc \<and> app_trans_order_code doc = Inr oc)))
   \<and> (verifyZaloPayCallback rt body = Inr zalopay_rejected \<longrightarrow>
        orderCode zalopay_rejected = None \<and>
        handleCallback rt faults now ZALOPAY body s = (Inr (JObj [(''return_code'', JNum ''-1'')]), s))
   \<and> (snd (handleCallback rt faults now ZALOPAY body s) \<noteq> s \<longrightarrow>
        (\<exists>d. d \<noteq> [] \<and> js_get body ''data'' = Some (JStr d) \<and>
             js_get body ''mac'' = Some (JStr (hmacHex rt (or_empty (ZALOPAY_KEY2 rt)) d))))"
  (is "?A \<and> ?B \<and> ?C \<and> ?D")
proof -
  have a: ?A
    unfolding verifyZaloPayCallback_def
    by (cases body)
       (auto simp: Let_def zalopay_rejected_def zalopay_accepted_def
             split: option.splits json.splits sum.splits)
  have b: ?B
    unfolding verifyZaloPayCallback_def
    by (cases body)
       (auto simp: Let_def zalopay_rejected_def zalopay_accepted_def js_get_JNull
             split: option.splits json.splits sum.splits)
  have c: ?C
    by (auto simp: handleCallback_def verifyAndParseCallback_def zalopay_rejected_def no_order_code_def)
  have d: ?D
  proof
    assume ch: "snd (handleCallback rt faults now ZALOPAY body s) \<noteq> s"
    show "\<exists>d. d \<noteq> [] \<and> js_get body ''data'' = Some (JStr d) \<and>
             js_get body ''mac'' = Some (JStr (hmacHex rt (or_empty (ZALOPAY_KEY2 rt)) d))"
    proof (cases "verifyZaloPayCallback rt body")
      case (Inl e)
      with ch show ?thesis by (simp add: handleCallback_def verifyAndParseCallback_def)
    next
      case (Inr res)
      from zalopay_result_cases [OF Inr] show ?thesis
      proof
        assume "res = zalopay_rejected"
        with Inr ch show ?thesis
          by (simp add: handleCallback_def verifyAndParseCallback_def zalopay_rejected_def no_order_code_def)
      next
        assume "\<exists>d doc oc. js_get body ''data'' = Some (JStr d) \<and> d \<noteq> [] \<and>
          js_get body ''mac'' = Some (JStr (hmacHex rt (or_empty (ZALOPAY_KEY2 rt)) d)) \<and>
          jsonParse rt d = Some doc \<and> app_trans_order_code doc = Inr oc \<and>
          res = \<lparr>orderCode = oc, success = True, response = zalopay_accepted\<rparr>"
        then show ?thesis by blast
      qed
    qed
  qed
  from a b c d show ?thesis by (intro conjI)
qed


theorem zalopay_verifier_decision_witness:
  "verifyZaloPayCallback demo_rt (JObj [(''data'', JStr zalo_data)]) = Inr zalopay_rejected
   \<and> handleCallback demo_rt no_faults 1000 ZALOPAY (JObj [(''data'', JStr zalo_data)]) (demo_store ''ORD-1001'')
       = (Inr (JObj [(''return_code'', JNum ''-1'')]), demo_store ''ORD-1001'')
   \<and> verifyZaloPayCallback demo_rt (zalo_body ''wrong key'' zalo_data) = Inr zalopay_rejected
   \<and> (\<exists>oc. verifyZaloPayCallback demo_rt (zalo_body ''key2'' zalo_data) =
              Inr \<lparr>orderCode = oc, success = True, response = zalopay_accepted\<rparr>)
   \<and> (\<exists>d. d \<noteq> [] \<and> js_get (zalo_body ''key2'' zalo_data) ''data'' = Some (JStr d) \<and>
           js_get (zalo_body ''key2'' zalo_data) ''mac'' =
             Some (JStr (hmacHex demo_rt (or_empty (ZALOPAY_KEY2 demo_rt)) d)))"
proof -
  have g: "js_get (JObj [(''data'', JStr zalo_data)]) ''mac'' = None"
    "js_get (zalo_body ''wrong key'' zalo_data) ''data'' = Some (JStr zalo_data)"
    "js_get (zalo_body ''wrong key'' zalo_data) ''mac'' = Some (JStr (demo_hmac ''wrong key'' zalo_data))"
    "js_get (zalo_body ''key2'' zalo_data) ''data'' = Some (JStr zalo_data)"
    "js_get (zalo_body ''key2'' zalo_data) ''mac'' = Some (JStr (demo_hmac ''key2'' zalo_data))"
    "hmacHex demo_rt (or_empty (ZALOPAY_KEY2 demo_rt)) zalo_data = demo_hmac ''key2'' zalo_data"
    "demo_hmac ''wrong key'' zalo_data \<noteq> demo_hmac ''key2'' zalo_data"
    "demo_hmac ''key2'' zalo_data \<noteq> []" "zalo_data \<noteq> []"
    "jsonParse demo_rt zalo_data = Some (JObj [(''app_trans_id'', JStr ''250101_ORD-1001'')])"
    "app_trans_order_code (JObj [(''app_trans_id'', JStr ''250101_ORD-1001'')]) = Inr (Some ''ORD-1001'')"
    by code_simp+
  have w1: "verifyZaloPayCallback demo_rt (JObj [(''data'', JStr zalo_data)]) = Inr zalopay_rejected"
    using zalopay_verifier_decision [of demo_rt "JObj [(''data'', JStr zalo_data)]"] g(1) by simp
  have w2: "handleCallback demo_rt no_faults 1000 ZALOPAY (JObj [(''data'', JStr zalo_data)]) (demo_store ''ORD-1001'')
       = (Inr (JObj [(''return_code'', JNum ''-1'')]), demo_store ''ORD-1001'')"
    using zalopay_verifier_decision [of demo_rt "JObj [(''data'', JStr zalo_data)]" no_faults 1000
        "demo_store ''ORD-1001''"] w1 by simp
  have w3: "verifyZaloPayCallback demo_rt (zalo_body ''wrong key'' zalo_data) = Inr zalopay_rejected"
    using zalopay_verifier_decision [of demo_rt "zalo_body ''wrong key'' zalo_data"] g
    by (simp add: zalo_body_def)
  have w4: "\<exists>oc. verifyZaloPayCallback demo_rt (zalo_body ''key2'' zalo_data) =
              Inr \<lparr>orderCode = oc, success = True, response = zalopay_accepted\<rparr>"
    using zalopay_verifier_decision [of demo_rt "zalo_body ''key2'' zalo_data"] g
    by simp
  have w5: "\<exists>d. d \<noteq> [] \<and> js_get (zalo_body ''key2'' zalo_data) ''data'' = Some (JStr d) \<and>
           js_get (zalo_body ''key2'' zalo_data) ''mac'' =
             Some (JStr (hmacHex demo_rt (or_empty (ZALOPAY_KEY2 demo_rt)) d))"
    using g by simp
  from w1 w2 w3 w4 w5 show ?thesis by (intro conjI)
qed

text \<open>
  The claim as first stated fails on a body whose \<open>data\<close> is the empty string with the
  matching MAC (rejected, because \<^verbatim>\<open>!data\<close> holds for the empty string), on a body
  with a matching MAC whose \<open>data\<close> is not JSON (the verifier throws), and on the body
  \<^verbatim>\<open>null\<close> (no \<open>data\<close>, yet the destructuring throws instead of rejecting).
\<close>

theorem zalopay_empty_data_rejected:
  "js_get (zalo_body ''key2'' []) ''data'' = Some (JStr [])
   \<and> js_get (zalo_body ''key2'' []) ''mac'' =
        Some (JStr (hmacHex demo_rt (or_empty (ZALOPAY_KEY2 demo_rt)) []))
   \<and> verifyZaloPayCallback demo_rt (zalo_body ''key2'' []) = Inr zalopay_rejected
   \<and> js_get (zalo_body ''key2'' ''not json'') ''mac'' =
        Some (JStr (hmacHex demo_rt (or_empty (ZALOPAY_KEY2 demo_rt)) ''not json''))
   \<and> verifyZaloPayCallback demo_rt (zalo_body ''key2'' ''not json'') = Inl SyntaxError
   \<and> js_get JNull ''data'' = None
   \<and> verifyZaloPayCallback demo_rt JNull = Inl TypeError"
  by (intro conjI; code_simp)

text \<open>
  C4 (as amended). For an authentic ZaloPay callback whose \<open>app_trans_id\<close> is a string,
  the order code is the second segment of the field split at underscores (the text after
  the first underscore, up to the next underscore or the end) when the field has an
  underscore and that segment is not empty, and the whole field otherwise. So it is the
  whole field when there is no underscore, and the text after the underscore when there is
  exactly one and something follows it.
\<close>

theorem zalopay_order_code_second_segment:
  assumes "verifyZaloPayCallback rt body = Inr res"
    and "res \<noteq> zalopay_rejected"
    and "js_get body ''data'' = Some (JStr d)"
    and "jsonParse rt d = Some doc"
    and "js_get doc ''app_trans_id'' = Some (JStr t)"
  shows "orderCode res =
           Some (let seg = takeWhile (\<lambda>x. x \<noteq> CHR ''_'') (tl (dropWhile (\<lambda>x. x \<noteq> CHR ''_'') t))
                 in if CHR ''_'' \<in> set t \<and> seg \<noteq> [] then seg else t)
     \<and> (CHR ''_'' \<notin> set t \<longrightarrow> orderCode res = Some t)
     \<and> (\<forall>pre suf. t = pre @ CHR ''_'' # suf \<and> CHR ''_'' \<notin> set pre \<and> CHR ''_'' \<notin> set suf \<and> suf \<noteq> []
           \<longrightarrow> orderCode res = Some suf)"
proof -
  from zalopay_result_cases [OF assms(1)] assms(2) obtain d' doc' oc where
    r: "js_get body ''data'' = Some (JStr d')" "jsonParse rt d' = Some doc'"
       "app_trans_order_code doc' = Inr oc"
       "res = \<lparr>orderCode = oc, success = True, response = zalopay_accepted\<rparr>"
    by blast
  from r(1) assms(3) have "d' = d" by simp
  with r(2) assms(4) have "doc' = doc" by simp
  with r(3) app_trans_order_code_string [OF assms(5)]
  have oc: "oc = Some (let seg = takeWhile (\<lambda>x. x \<noteq> CHR ''_'') (tl (dropWhile (\<lambda>x. x \<noteq> CHR ''_'') t))
                 in if CHR ''_'' \<in> set t \<and> seg \<noteq> [] then seg else t)"
    by simp
  have seg: "takeWhile (\<lambda>x. x \<noteq> CHR ''_'') (tl (dropWhile (\<lambda>x. x \<noteq> CHR ''_'') (pre @ CHR ''_'' # suf))) = suf"
    if "CHR ''_'' \<notin> set pre" "CHR ''_'' \<notin> set suf" for pre suf
  proof -
    have "dropWhile (\<lambda>x. x \<noteq> CHR ''_'') (pre @ CHR ''_'' # suf) = CHR ''_'' # suf"
      using that(1) by (induction pre) auto
    moreover have "takeWhile (\<lambda>x. x \<noteq> CHR ''_'') suf = suf"
      using that(2) by (induction suf) auto
    ultimately show ?thesis by simp
  qed
  from oc r(4) seg show ?thesis by (auto simp: Let_def)
qed

theorem zalopay_order_code_second_segment_witness:
  "verifyZaloPayCallback demo_rt (zalo_body ''key2'' zalo_data) =
     Inr \<lparr>orderCode = Some ''ORD-1001'', success = True, response = zalopay_accepted\<rparr>
   \<and> js_get (zalo_body ''key2'' zalo_data) ''data'' = Some (JStr zalo_data)
   \<and> jsonParse demo_rt zalo_data = Some (JObj [(''app_trans_id'', JStr ''250101_ORD-1001'')])
   \<and> orderCode \<lparr>orderCode = Some ''ORD-1001'', success = True, response = zalopay_accepted\<rparr> =
       Some (takeWhile (\<lambda>x. x \<noteq> CHR ''_'') (tl (dropWhile (\<lambda>x. x \<noteq> CHR ''_'') ''250101_ORD-1001'')))"
proof -
  have v: "verifyZaloPayCallback demo_rt (zalo_body ''key2'' zalo_data) =
     Inr \<lparr>orderCode = Some ''ORD-1001'', success = True, response = zalopay_accepted\<rparr>"
    by code_simp
  have ne: "\<lparr>orderCode = Some ''ORD-1001'', success = True, response = zalopay_accepted\<rparr>
      \<noteq> zalopay_rejected"
    by (simp add: zalopay_rejected_def)
  have g: "js_get (zalo_body ''key2'' zalo_data) ''data'' = Some (JStr zalo_data)"
    "jsonParse demo_rt zalo_data = Some (JObj [(''app_trans_id'', JStr ''250101_ORD-1001'')])"
    "js_get (JObj [(''app_trans_id'', JStr ''250101_ORD-1001'')]) ''app_trans_id'' = Some (JStr ''250101_ORD-1001'')"
    by code_simp+
  have "orderCode \<lparr>orderCode = Some ''ORD-1001'', success = True, response = zalopay_accepted\<rparr> =
       Some (takeWhile (\<lambda>x. x \<noteq> CHR ''_'') (tl (dropWhile (\<lambda>x. x \<noteq> CHR ''_'') ''250101_ORD-1001'')))"
    using zalopay_order_code_second_segment [OF v ne g] by (simp add: Let_def)
  with v g show ?thesis by (intro conjI)
qed

text \<open>
  With two underscores the order code is the middle segment:
  \<^verbatim>\<open>250101_ORD_1001\<close> gives \<^verbatim>\<open>ORD\<close>, not \<^verbatim>\<open>ORD_1001\<close>.
\<close>

theorem zalopay_two_underscores_takes_middle_segment:
  "verifyZaloPayCallback demo_rt (zalo_body ''key2'' zalo_data_two_underscores) =
     Inr \<lparr>orderCode = Some ''ORD'', success = True, response = zalopay_accepted\<rparr>
   \<and> verifyZaloPayCallback demo_rt (zalo_body ''key2'' zalo_data_two_underscores) \<noteq>
     Inr \<lparr>orderCode = Some ''ORD_1001'', success = True, response = zalopay_accepted\<rparr>"
  by (intro conjI; code_simp)

section \<open>Unset provider secret\<close>

lemma handleSuccessPayment_commits:
  assumes "\<not> paymentUpdateFails faults" "\<not> outboxCreateFails faults"
    and "p \<in> set (payments s)" "pay_orderCode p = oc"
  shows "\<exists>s'. handleSuccessPayment faults now oc s = (Inr (), s') \<and>
           length (outbox s') = Suc (length (outbox s)) \<and>
           (\<exists>p'\<in>set (payments s'). pay_orderCode p' = oc \<and> status p' = COMPLETED \<and>
              completedAt p' = Some now)"
proof -
  obtain r s' where b: "success_body faults now oc s = (r, s')"
    by (cases "success_body faults now oc s")
  from assms success_body_error [of faults now oc s] b have "\<not> (\<exists>e. r = Inl e)" by auto
  with success_body_cases [OF b] obtain i where i: "i < length (payments s)"
    "pay_orderCode (payments s ! i) = oc"
    "s' = s\<lparr>payments := (payments s)[i := (payments s ! i)\<lparr>status := COMPLETED, completedAt := Some now\<rparr>],
               outbox := outbox s @
                 [\<lparr>ob_id = nextOutboxId s, aggregateId = pay_id (payments s ! i), aggregateType = ''Payment'',
                   eventType = PAYMENT_COMPLETED,
                   payload = \<lparr>payment_id = pay_id (payments s ! i), order_code = pay_orderCode (payments s ! i),
                     amount_cents = amountCents (payments s ! i), payload_currency = currency (payments s ! i),
                     payload_provider = pay_provider (payments s ! i),
                     transaction_id = providerTransactionId (payments s ! i),
                     completed_at = Some now, failed_at = None\<rparr>,
                   published = False, publishedAt = None, retryCount = 0, lastError = None,
                   createdAt = now\<rparr>],
               nextOutboxId := Suc (nextOutboxId s)\<rparr>"
    by blast
  from \<open>\<not> (\<exists>e. r = Inl e)\<close> obtain v where v: "r = Inr v" by (cases r) auto
  have h: "handleSuccessPayment faults now oc s = (Inr (), s')"
    using b v by (simp add: handleSuccessPayment_def transaction_def)
  have m: "(payments s ! i)\<lparr>status := COMPLETED, completedAt := Some now\<rparr> \<in> set (payments s')"
    using i(1) i(3) by (simp add: set_update_memI)
  have ex: "\<exists>p'\<in>set (payments s'). pay_orderCode p' = oc \<and> status p' = COMPLETED \<and>
              completedAt p' = Some now"
    using m i(2) by (intro bexI [of _ "(payments s ! i)\<lparr>status := COMPLETED, completedAt := Some now\<rparr>"]) simp_all
  have len: "length (outbox s') = Suc (length (outbox s))"
    using i(3) by simp
  from h len ex show ?thesis by blast
qed

lemma handleFailedPayment_commits:
  assumes "\<not> paymentUpdateFails faults" "\<not> outboxCreateFails faults"
    and "p \<in> set (payments s)" "pay_orderCode p = oc"
  shows "\<exists>s'. handleFailedPayment faults now oc s = (Inr (), s') \<and>
           length (outbox s') = Suc (length (outbox s)) \<and>
           (\<exists>p'\<in>set (payments s'). pay_orderCode p' = oc \<and> status p' = FAILED \<and>
              failedAt p' = Some now)"
proof -
  obtain r s' where b: "failed_body faults now oc s = (r, s')"
    by (cases "failed_body faults now oc s")
  from assms failed_body_error [of faults now oc s] b have "\<not> (\<exists>e. r = Inl e)" by auto
  with failed_body_cases [OF b] obtain i where i: "i < length (payments s)"
    "pay_orderCode (payments s ! i) = oc"
    "s' = s\<lparr>payments := (payments s)[i := (payments s ! i)\<lparr>status := FAILED, failedAt := Some now\<rparr>],
               outbox := outbox s @
                 [\<lparr>ob_id = nextOutboxId s, aggregateId = pay_id (payments s ! i), aggregateType = ''Payment'',
                   eventType = PAYMENT_FAILED,
                   payload = \<lparr>payment_id = pay_id (payments s ! i), order_code = pay_orderCode (payments s ! i),
                     amount_cents = amountCents (payments s ! i), payload_currency = currency (payments s ! i),
                     payload_provider = pay_provider (payments s ! i),
                     transaction_id = providerTransactionId (payments s ! i),
                     completed_at = None, failed_at = Some now\<rparr>,
                   published = False, publishedAt = None, retryCount = 0, lastError = None,
                   createdAt = now\<rparr>],
               nextOutboxId := Suc (nextOutboxId s)\<rparr>"
    by blast
  from \<open>\<not> (\<exists>e. r = Inl e)\<close> obtain v where v: "r = Inr v" by (cases r) auto
  have h: "handleFailedPayment faults now oc s = (Inr (), s')"
    using b v by (simp add: handleFailedPayment_def transaction_def)
  have m: "(payments s ! i)\<lparr>status := FAILED, failedAt := Some now\<rparr> \<in> set (payments s')"
    using i(1) i(3) by (simp add: set_update_memI)
  have ex: "\<exists>p'\<in>set (payments s'). pay_orderCode p' = oc \<and> status p' = FAILED \<and>
              failedAt p' = Some now"
    using m i(2) by (intro bexI [of _ "(payments s ! i)\<lparr>status := FAILED, failedAt := Some now\<rparr>"]) simp_all
  have len: "length (outbox s') = Suc (length (outbox s))"
    using i(3) by simp
  from h len ex show ?thesis by blast
qed

lemma zalopay_accepts:
  assumes "js_get body ''data'' = Some (JStr d)" "d \<noteq> []"
    and "js_get body ''mac'' = Some (JStr (hmacHex rt (or_empty (ZALOPAY_KEY2 rt)) d))"
    and "hmacHex rt (or_empty (ZALOPAY_KEY2 rt)) d \<noteq> []"
    and "jsonParse rt d = Some doc" "app_trans_order_code doc = Inr oc"
  shows "verifyZaloPayCallback rt body = Inr \<lparr>orderCode = oc, success = True, response = zalopay_accepted\<rparr>"
  using assms unfolding verifyZaloPayCallback_def
  by (cases body) (auto simp: Let_def js_get_JNull)

lemma payos_accepts:
  assumes "js_get body ''data'' = Some dv" "truthy (Some dv)"
    and "sortedData dv = Some sd"
    and "js_get body ''signature'' = Some (JStr (hmacHex rt (or_empty (PAYOS_CHECKSUM_KEY rt)) sd))"
    and "hmacHex rt (or_empty (PAYOS_CHECKSUM_KEY rt)) sd \<noteq> []"
    and "optional_toString (js_get dv ''orderCode'') = Inr oc"
  shows "verifyPayOSCallback rt body =
     Inr \<lparr>orderCode = oc, success = (js_get dv ''code'' = Some (JStr ''00'')),
          response = JObj [(''success'', JBool True)]\<rparr>"
  using assms unfolding verifyPayOSCallback_def
  by (cases body) (auto simp: Let_def js_get_JNull)

text \<open>
  C10. When \<^verbatim>\<open>ZALOPAY_KEY2\<close> (or \<^verbatim>\<open>PAYOS_CHECKSUM_KEY\<close>) is unset, the verifier
  computes the HMAC with the empty string as the key and rejects nothing on that account:
  a callback whose \<open>mac\<close> (or \<open>signature\<close>) is the digest under the empty key is
  authentic, and when its order code names a payment, \<open>handleCallback\<close> rewrites that
  payment to its terminal status and appends an outbox row.
\<close>

theorem unset_secret_uses_empty_key:
  "(ZALOPAY_KEY2 rt = None \<and> js_get body ''data'' = Some (JStr d) \<and> d \<noteq> [] \<and>
    js_get body ''mac'' = Some (JStr (hmacHex rt [] d)) \<and> hmacHex rt [] d \<noteq> [] \<and>
    jsonParse rt d = Some doc \<and> app_trans_order_code doc = Inr (Some oc) \<and> oc \<noteq> [] \<and>
    p \<in> set (payments s) \<and> pay_orderCode p = oc
    \<longrightarrow> verifyZaloPayCallback rt body =
          Inr \<lparr>orderCode = Some oc, success = True, response = zalopay_accepted\<rparr> \<and>
        (\<exists>s'. handleCallback rt no_faults now ZALOPAY body s = (Inr zalopay_accepted, s') \<and>
              length (outbox s') = Suc (length (outbox s)) \<and>
              (\<exists>p'\<in>set (payments s'). pay_orderCode p' = oc \<and> status p' = COMPLETED \<and>
                 completedAt p' = Some now)))
   \<and> (PAYOS_CHECKSUM_KEY rt = None \<and> js_get body ''data'' = Some dv \<and> truthy (Some dv) \<and>
    sortedData dv = Some sd \<and>
    js_get body ''signature'' = Some (JStr (hmacHex rt [] sd)) \<and> hmacHex rt [] sd \<noteq> [] \<and>
    optional_toString (js_get dv ''orderCode'') = Inr (Some oc) \<and> oc \<noteq> [] \<and>
    p \<in> set (payments s) \<and> pay_orderCode p = oc
    \<longrightarrow> verifyPayOSCallback rt body =
          Inr \<lparr>orderCode = Some oc, success = (js_get dv ''code'' = Some (JStr ''00'')),
               response = JObj [(''success'', JBool True)]\<rparr> \<and>
        (\<exists>s'. handleCallback rt no_faults now PAYOS body s = (Inr (JObj [(''success'', JBool True)]), s') \<and>
              length (outbox s') = Suc (length (outbox s)) \<and>
              (\<exists>p'\<in>set (payments s'). pay_orderCode p' = oc \<and>
                 status p' = (if js_get dv ''code'' = Some (JStr ''00'') then COMPLETED else FAILED))))"
  (is "(?ZH \<longrightarrow> ?ZC) \<and> (?PH \<longrightarrow> ?PC)")
proof -
  have nf: "\<not> paymentUpdateFails no_faults" "\<not> outboxCreateFails no_faults"
    by (simp_all add: no_faults_def)
  have z: "?ZH \<longrightarrow> ?ZC"
  proof
    assume h: ?ZH
    from h have v: "verifyZaloPayCallback rt body =
        Inr \<lparr>orderCode = Some oc, success = True, response = zalopay_accepted\<rparr>"
      by (intro zalopay_accepts [where d = d and doc = doc]) (simp_all add: or_empty_def)
    from h handleSuccessPayment_commits [OF nf, of p s oc now]
    obtain s' where s': "handleSuccessPayment no_faults now oc s = (Inr (), s')"
      "length (outbox s') = Suc (length (outbox s))"
      "\<exists>p'\<in>set (payments s'). pay_orderCode p' = oc \<and> status p' = COMPLETED \<and> completedAt p' = Some now"
      by blast
    from h v s' have "handleCallback rt no_faults now ZALOPAY body s = (Inr zalopay_accepted, s')"
      by (simp add: handleCallback_def verifyAndParseCallback_def no_order_code_def)
    with v s' show ?ZC by blast
  qed
  have p: "?PH \<longrightarrow> ?PC"
  proof
    assume h: ?PH
    from h have v: "verifyPayOSCallback rt body =
          Inr \<lparr>orderCode = Some oc, success = (js_get dv ''code'' = Some (JStr ''00'')),
               response = JObj [(''success'', JBool True)]\<rparr>"
      by (intro payos_accepts [where sd = sd]) (simp_all add: or_empty_def)
    show ?PC
    proof (cases "js_get dv ''code'' = Some (JStr ''00'')")
      case True
      from h handleSuccessPayment_commits [OF nf, of p s oc now]
      obtain s' where s': "handleSuccessPayment no_faults now oc s = (Inr (), s')"
        "length (outbox s') = Suc (length (outbox s))"
        "\<exists>p'\<in>set (payments s'). pay_orderCode p' = oc \<and> status p' = COMPLETED \<and> completedAt p' = Some now"
        by blast
      from h v s' True
      have "handleCallback rt no_faults now PAYOS body s = (Inr (JObj [(''success'', JBool True)]), s')"
        by (simp add: handleCallback_def verifyAndParseCallback_def no_order_code_def)
      with v s' True show ?thesis by auto
    next
      case False
      from h handleFailedPayment_commits [OF nf, of p s oc now]
      obtain s' where s': "handleFailedPayment no_faults now oc s = (Inr (), s')"
        "length (outbox s') = Suc (length (outbox s))"
        "\<exists>p'\<in>set (payments s'). pay_orderCode p' = oc \<and> status p' = FAILED \<and> failedAt p' = Some now"
        by blast
      from h v s' False
      have "handleCallback rt no_faults now PAYOS body s = (Inr (JObj [(''success'', JBool True)]), s')"
        by (simp add: handleCallback_def verifyAndParseCallback_def no_order_code_def)
      with v s' False show ?thesis by auto
    qed
  qed
  from z p show ?thesis by (intro conjI)
qed

lemma demo_sortedData:
  "sortedData (JObj payos_doc) = Some ''amount=250000&code=00&orderCode=1001''"
  "sortedData (JObj payos_doc_reordered) = Some ''amount=250000&code=00&orderCode=1001''"
  by (simp_all add: sortedData_def payos_doc_def payos_doc_reordered_def less_char_def
        less_eq_char_def)

lemma demo_order_code_string:
  "optional_toString (js_get (JObj payos_doc) ''orderCode'') = Inr (Some ''1001'')"
  by (simp add: optional_toString_def js_get_def payos_doc_def)

theorem unset_secret_uses_empty_key_witness:
  "fst (handleCallback demo_rt_unset no_faults 1000 ZALOPAY (zalo_body [] zalo_data) (demo_store ''ORD-1001''))
       = Inr zalopay_accepted
   \<and> length (outbox (snd (handleCallback demo_rt_unset no_faults 1000 ZALOPAY (zalo_body [] zalo_data)
        (demo_store ''ORD-1001'')))) = 1
   \<and> verifyPayOSCallback demo_rt_unset
        (JObj [(''data'', JObj payos_doc),
               (''signature'', JStr (demo_hmac [] ''amount=250000&code=00&orderCode=1001''))]) =
       Inr \<lparr>orderCode = Some ''1001'', success = True, response = JObj [(''success'', JBool True)]\<rparr>
   \<and> length (outbox (snd (handleCallback demo_rt_unset no_faults 1000 PAYOS
        (JObj [(''data'', JObj payos_doc),
               (''signature'', JStr (demo_hmac [] ''amount=250000&code=00&orderCode=1001''))])
        (demo_store ''1001'')))) = 1"
proof -
  have z: "ZALOPAY_KEY2 demo_rt_unset = None"
    "js_get (zalo_body [] zalo_data) ''data'' = Some (JStr zalo_data)" "zalo_data \<noteq> []"
    "js_get (zalo_body [] zalo_data) ''mac'' = Some (JStr (hmacHex demo_rt_unset [] zalo_data))"
    "hmacHex demo_rt_unset [] zalo_data \<noteq> []"
    "jsonParse demo_rt_unset zalo_data = Some (JObj [(''app_trans_id'', JStr ''250101_ORD-1001'')])"
    "app_trans_order_code (JObj [(''app_trans_id'', JStr ''250101_ORD-1001'')]) = Inr (Some ''ORD-1001'')"
    "''ORD-1001'' \<noteq> []"
    "demo_payment ''ORD-1001'' \<in> set (payments (demo_store ''ORD-1001''))"
    "pay_orderCode (demo_payment ''ORD-1001'') = ''ORD-1001''"
    by code_simp+
  have o: "outbox (demo_store ''ORD-1001'') = []" "outbox (demo_store ''1001'') = []"
    by (simp_all add: demo_store_def)
  have zc: "verifyZaloPayCallback demo_rt_unset (zalo_body [] zalo_data) =
          Inr \<lparr>orderCode = Some ''ORD-1001'', success = True, response = zalopay_accepted\<rparr> \<and>
        (\<exists>s'. handleCallback demo_rt_unset no_faults 1000 ZALOPAY (zalo_body [] zalo_data)
                (demo_store ''ORD-1001'') = (Inr zalopay_accepted, s') \<and>
              length (outbox s') = Suc (length (outbox (demo_store ''ORD-1001''))) \<and>
              (\<exists>p'\<in>set (payments s'). pay_orderCode p' = ''ORD-1001'' \<and> status p' = COMPLETED \<and>
                 completedAt p' = Some 1000))"
    by (rule unset_secret_uses_empty_key [where rt = demo_rt_unset and body = "zalo_body [] zalo_data"
          and d = zalo_data and doc = "JObj [(''app_trans_id'', JStr ''250101_ORD-1001'')]"
          and oc = "''ORD-1001''" and p = "demo_payment ''ORD-1001''" and s = "demo_store ''ORD-1001''"
          and now = 1000, THEN conjunct1, THEN mp])
       (intro conjI z)
  then obtain s' where s': "handleCallback demo_rt_unset no_faults 1000 ZALOPAY (zalo_body [] zalo_data)
       (demo_store ''ORD-1001'') = (Inr zalopay_accepted, s')"
    "length (outbox s') = Suc (length (outbox (demo_store ''ORD-1001'')))"
    by (elim conjE exE)
  have w1: "fst (handleCallback demo_rt_unset no_faults 1000 ZALOPAY (zalo_body [] zalo_data)
      (demo_store ''ORD-1001'')) = Inr zalopay_accepted"
    by (simp only: s' fst_conv)
  have w2: "length (outbox (snd (handleCallback demo_rt_unset no_faults 1000 ZALOPAY (zalo_body [] zalo_data)
        (demo_store ''ORD-1001'')))) = 1"
    by (simp only: s' snd_conv o list.size One_nat_def)
  have y1: "PAYOS_CHECKSUM_KEY demo_rt_unset = None"
    "js_get (JObj [(''data'', JObj payos_doc),
               (''signature'', JStr (demo_hmac [] ''amount=250000&code=00&orderCode=1001''))]) ''data''
       = Some (JObj payos_doc)"
    "truthy (Some (JObj payos_doc))"
    by code_simp+
  have y2: "js_get (JObj [(''data'', JObj payos_doc),
               (''signature'', JStr (demo_hmac [] ''amount=250000&code=00&orderCode=1001''))]) ''signature''
       = Some (JStr (hmacHex demo_rt_unset [] ''amount=250000&code=00&orderCode=1001''))"
    "hmacHex demo_rt_unset [] ''amount=250000&code=00&orderCode=1001'' \<noteq> []"
    by code_simp+
  have y3: "''1001'' \<noteq> []"
    "demo_payment ''1001'' \<in> set (payments (demo_store ''1001''))"
    "pay_orderCode (demo_payment ''1001'') = ''1001''"
    by code_simp+
  note y = y1 demo_sortedData(1) y2 demo_order_code_string y3
  have c: "(js_get (JObj payos_doc) ''code'' = Some (JStr ''00'')) = True"
    by (simp add: js_get_def payos_doc_def)
  have pc: "verifyPayOSCallback demo_rt_unset
        (JObj [(''data'', JObj payos_doc),
               (''signature'', JStr (demo_hmac [] ''amount=250000&code=00&orderCode=1001''))]) =
       Inr \<lparr>orderCode = Some ''1001'', success = (js_get (JObj payos_doc) ''code'' = Some (JStr ''00'')),
            response = JObj [(''success'', JBool True)]\<rparr>
     \<and> (\<exists>s'. handleCallback demo_rt_unset no_faults 1000 PAYOS
        (JObj [(''data'', JObj payos_doc),
               (''signature'', JStr (demo_hmac [] ''amount=250000&code=00&orderCode=1001''))])
        (demo_store ''1001'') = (Inr (JObj [(''success'', JBool True)]), s') \<and>
        length (outbox s') = Suc (length (outbox (demo_store ''1001''))) \<and>
        (\<exists>p'\<in>set (payments s'). pay_orderCode p' = ''1001'' \<and>
            status p' = (if js_get (JObj payos_doc) ''code'' = Some (JStr ''00'') then COMPLETED else FAILED)))"
    by (rule unset_secret_uses_empty_key [where rt = demo_rt_unset
          and body = "JObj [(''data'', JObj payos_doc),
               (''signature'', JStr (demo_hmac [] ''amount=250000&code=00&orderCode=1001''))]"
          and dv = "JObj payos_doc" and sd = "''amount=250000&code=00&orderCode=1001''"
          and oc = "''1001''" and p = "demo_payment ''1001''" and s = "demo_store ''1001''"
          and now = 1000, THEN conjunct2, THEN mp])
       (intro conjI y)
  then have w3: "verifyPayOSCallback demo_rt_unset
        (JObj [(''data'', JObj payos_doc),
               (''signature'', JStr (demo_hmac [] ''amount=250000&code=00&orderCode=1001''))]) =
       Inr \<lparr>orderCode = Some ''1001'', success = True, response = JObj [(''success'', JBool True)]\<rparr>"
    by (simp only: c)
  from pc obtain t' where t': "handleCallback demo_rt_unset no_faults 1000 PAYOS
        (JObj [(''data'', JObj payos_doc),
               (''signature'', JStr (demo_hmac [] ''amount=250000&code=00&orderCode=1001''))])
        (demo_store ''1001'') = (Inr (JObj [(''success'', JBool True)]), t')"
     "length (outbox t') = Suc (length (outbox (demo_store ''1001'')))"
    by (elim conjE exE)
  have w4: "length (outbox (snd (handleCallback demo_rt_unset no_faults 1000 PAYOS
        (JObj [(''data'', JObj payos_doc),
               (''signature'', JStr (demo_hmac [] ''amount=250000&code=00&orderCode=1001''))])
        (demo_store ''1001'')))) = 1"
    by (simp only: t' snd_conv o list.size One_nat_def)
  from w1 w2 w3 w4 show ?thesis by (intro conjI)
qed

section \<open>PayOS canonical string\<close>

lemma sort_distinct_set:
  assumes "distinct xs" "distinct ys" "set xs = set ys"
  shows "sort xs = sort (ys :: 'a :: linorder list)"
proof -
  from assms have "mset xs = mset ys" by (simp add: set_eq_iff_mset_eq_distinct)
  then have "mset (sort ys) = mset xs" by simp
  then show ?thesis by (rule properties_for_sort) simp
qed

lemma same_entries:
  assumes "distinct (map fst d1)" "distinct (map fst d2)" "set d1 = set d2"
  shows "map_of d1 = map_of d2" "sort (map fst d1) = sort (map fst d2)"
proof -
  from assms show "map_of d1 = map_of d2" by (simp add: map_of_inject_set)
  from assms(3) have "set (map fst d1) = set (map fst d2)" by simp
  with assms(1,2) show "sort (map fst d1) = sort (map fst d2)" by (rule sort_distinct_set)
qed

text \<open>
  C5. Two PayOS data documents with the same key/value pairs, in whatever insertion
  order, have the same canonical string, hence the same expected signature, and the
  verifier returns the same result on two bodies that carry them with the same
  \<open>signature\<close>.
\<close>

theorem payos_canonical_order_independent:
  assumes "distinct (map fst d1)" and "distinct (map fst d2)" and "set d1 = set d2"
    and "js_get body1 ''data'' = Some (JObj d1)" and "js_get body2 ''data'' = Some (JObj d2)"
    and "js_get body1 ''signature'' = js_get body2 ''signature''"
  shows "sortedData (JObj d1) = sortedData (JObj d2)
     \<and> map_option (hmacHex rt (or_empty (PAYOS_CHECKSUM_KEY rt))) (sortedData (JObj d1)) =
       map_option (hmacHex rt (or_empty (PAYOS_CHECKSUM_KEY rt))) (sortedData (JObj d2))
     \<and> verifyPayOSCallback rt body1 = verifyPayOSCallback rt body2"
proof -
  note e = same_entries [OF assms(1-3)]
  have sd: "sortedData (JObj d1) = sortedData (JObj d2)"
    by (simp add: sortedData_def e)
  have g: "js_get (JObj d1) k = js_get (JObj d2) k" for k
    by (simp add: js_get_def e)
  have n: "body1 \<noteq> JNull" "body2 \<noteq> JNull"
    using assms(4,5) by (auto simp: js_get_JNull)
  have "verifyPayOSCallback rt body1 = verifyPayOSCallback rt body2"
    using n assms(4-6) unfolding verifyPayOSCallback_def
    by (cases body1; cases body2)
       (auto simp: Let_def sd g split: option.splits sum.splits)
  with sd show ?thesis by simp
qed

theorem payos_canonical_order_independent_witness:
  "sortedData (JObj payos_doc) = Some ''amount=250000&code=00&orderCode=1001''
   \<and> sortedData (JObj payos_doc_reordered) = sortedData (JObj payos_doc)
   \<and> verifyPayOSCallback demo_rt
        (JObj [(''signature'', JStr (demo_hmac ''checksum'' ''amount=250000&code=00&orderCode=1001'')),
               (''data'', JObj payos_doc_reordered)]) =
      verifyPayOSCallback demo_rt
        (JObj [(''data'', JObj payos_doc),
               (''signature'', JStr (demo_hmac ''checksum'' ''amount=250000&code=00&orderCode=1001''))])"
proof -
  have h: "distinct (map fst payos_doc_reordered)" "distinct (map fst payos_doc)"
    "set payos_doc_reordered = set payos_doc"
    by (auto simp: payos_doc_def payos_doc_reordered_def)
  have g: "js_get (JObj [(''signature'', JStr (demo_hmac ''checksum'' ''amount=250000&code=00&orderCode=1001'')),
               (''data'', JObj payos_doc_reordered)]) ''data''
       = Some (JObj payos_doc_reordered)"
    "js_get (JObj [(''data'', JObj payos_doc),
               (''signature'', JStr (demo_hmac ''checksum'' ''amount=250000&code=00&orderCode=1001''))]) ''data''
       = Some (JObj payos_doc)"
    "js_get (JObj [(''signature'', JStr (demo_hmac ''checksum'' ''amount=250000&code=00&orderCode=1001'')),
               (''data'', JObj payos_doc_reordered)]) ''signature''
       = js_get (JObj [(''data'', JObj payos_doc),
               (''signature'', JStr (demo_hmac ''checksum'' ''amount=250000&code=00&orderCode=1001''))]) ''signature''"
    by (simp_all add: js_get_def)
  from payos_canonical_order_independent [OF h g, of demo_rt] demo_sortedData(1)
  show ?thesis by (intro conjI) simp_all
qed

section \<open>Outbox processor: batch selection\<close>

text \<open>
  C6. The batch the relay acquires has at most 100 entries; every one is a row of the
  outbox with \<open>published = False\<close> and \<open>retryCount < 5\<close>, so none has
  \<open>retryCount \<ge> MAX_RETRIES\<close>; the batch is in ascending \<open>createdAt\<close> order; and
  when at most 100 rows qualify, the batch is all of them.
\<close>

theorem relay_batch_selection:
  "length (find_batch s) \<le> 100
   \<and> (\<forall>e\<in>set (find_batch s). e \<in> set (outbox s) \<and> \<not> published e \<and> retryCount e < 5)
   \<and> sorted (map createdAt (find_batch s))
   \<and> (\<forall>e\<in>set (find_batch s). \<not> retryCount e \<ge> MAX_RETRIES)
   \<and> (length (filter (\<lambda>e. \<not> published e \<and> retryCount e < 5) (outbox s)) \<le> 100 \<longrightarrow>
        mset (find_batch s) = mset (filter (\<lambda>e. \<not> published e \<and> retryCount e < 5) (outbox s)))"
proof -
  have p: "pending = (\<lambda>e. \<not> published e \<and> retryCount e < 5)"
    by (simp add: pending_def MAX_RETRIES_def fun_eq_iff)
  have sub: "set (find_batch s) \<subseteq> set (filter pending (outbox s))"
    unfolding find_batch_def using set_take_subset [of BATCH_SIZE "sort_key createdAt (filter pending (outbox s))"]
    by simp
  have a: "length (find_batch s) \<le> 100"
    by (simp add: find_batch_def BATCH_SIZE_def)
  have b: "\<forall>e\<in>set (find_batch s). e \<in> set (outbox s) \<and> \<not> published e \<and> retryCount e < 5"
    using sub by (auto simp: p)
  have c: "sorted (map createdAt (find_batch s))"
    unfolding find_batch_def by (simp add: take_map [symmetric])
  have d: "\<forall>e\<in>set (find_batch s). \<not> retryCount e \<ge> MAX_RETRIES"
    using b by (auto simp: MAX_RETRIES_def)
  have e: "length (filter (\<lambda>e. \<not> published e \<and> retryCount e < 5) (outbox s)) \<le> 100 \<longrightarrow>
        mset (find_batch s) = mset (filter (\<lambda>e. \<not> published e \<and> retryCount e < 5) (outbox s))"
    by (simp add: find_batch_def BATCH_SIZE_def p)
  from a b c d e show ?thesis by (intro conjI)
qed

theorem relay_batch_selection_witness:
  "find_batch demo_relay_store = [demo_entry 3 False None 2 200, demo_entry 0 False None 0 300]
   \<and> demo_entry 1 False None 5 100 \<in> set (outbox demo_relay_store)
   \<and> demo_entry 1 False None 5 100 \<notin> set (find_batch demo_relay_store)
   \<and> sorted (map createdAt (find_batch demo_relay_store))"
proof -
  have f: "find_batch demo_relay_store = [demo_entry 3 False None 2 200, demo_entry 0 False None 0 300]"
    by code_simp
  have m: "demo_entry 1 False None 5 100 \<in> set (outbox demo_relay_store)"
    by code_simp
  have r: "retryCount (demo_entry 1 False None 5 100) = 5"
    by (simp add: demo_entry_def)
  from relay_batch_selection [of demo_relay_store] r
  have "demo_entry 1 False None 5 100 \<notin> set (find_batch demo_relay_store)"
    "sorted (map createdAt (find_batch demo_relay_store))"
    by auto
  with f m show ?thesis by (intro conjI)
qed

section \<open>Outbox cleanup: deletion and stuck report\<close>

text \<open>
  C9. A cleanup run at instant \<open>now\<close> whose cutoff (\<open>now\<close> minus the retention days, 7
  when not configured) is an instant a \<^verbatim>\<open>Date\<close> can hold returns; it removes exactly the
  rows with \<open>published\<close> and \<open>publishedAt\<close> before the cutoff, and returns how many
  they were; run again at once on the result it deletes none. The stuck report is exactly
  the rows with \<open>published = False\<close> and \<open>retryCount \<ge> 5\<close>; the deletion removes none
  of them, so the report is the same before and after it. With a cutoff outside the range
  of \<^verbatim>\<open>Date\<close> the run throws and the store is as it was.
\<close>

theorem sweeper_deletes_old_published_reports_stuck:
  "(abs (now - RETENTION_DAYS configured * 86400000) \<le> 8640000000000000 \<longrightarrow>
      (\<exists>n s'. deleteOldPublishedEvents configured now s = (Inr n, s')
         \<and> outbox s' =
             filter (\<lambda>e. \<not> (published e \<and>
                      (\<exists>t. publishedAt e = Some t \<and> t < now - RETENTION_DAYS configured * 86400000)))
               (outbox s)
         \<and> n = length (filter (\<lambda>e. published e \<and>
                      (\<exists>t. publishedAt e = Some t \<and> t < now - RETENTION_DAYS configured * 86400000))
               (outbox s))
         \<and> length (outbox s') + n = length (outbox s)
         \<and> payments s' = payments s
         \<and> deleteOldPublishedEvents configured now s' = (Inr 0, s')
         \<and> monitorFailedEvents s' = monitorFailedEvents s
         \<and> set (monitorFailedEvents s) \<subseteq> set (outbox s')
         \<and> outbox_cleanup_handler configured now s = (Inr (n, monitorFailedEvents s), s')))
   \<and> RETENTION_DAYS None = 7
   \<and> mset (monitorFailedEvents s) =
       mset (filter (\<lambda>e. \<not> published e \<and> retryCount e \<ge> 5) (outbox s))
   \<and> (\<not> abs (now - RETENTION_DAYS configured * 86400000) \<le> 8640000000000000 \<longrightarrow>
        deleteOldPublishedEvents configured now s = (Inl InvalidDate, s) \<and>
        outbox_cleanup_handler configured now s = (Inl InvalidDate, s))"
  (is "(?R \<longrightarrow> ?A) \<and> ?B \<and> ?C \<and> (\<not> ?R \<longrightarrow> ?D)")
proof -
  let ?cut = "now - RETENTION_DAYS configured * 86400000"
  let ?old = "old_published ?cut"
  have o: "?old = (\<lambda>e. published e \<and> (\<exists>t. publishedAt e = Some t \<and> t < ?cut))"
    by (auto simp: old_published_def fun_eq_iff split: option.splits)
  have st: "stuck = (\<lambda>e. \<not> published e \<and> retryCount e \<ge> 5)"
    by (simp add: stuck_def MAX_RETRIES_def fun_eq_iff)
  have a: "?R \<longrightarrow> ?A"
  proof
    assume r: ?R
    then have c: "cutoffDate now (RETENTION_DAYS configured) = Some ?cut"
      by (simp add: cutoffDate_def Let_def)
    define n where "n = length (filter ?old (outbox s))"
    define s' where "s' = s\<lparr>outbox := filter (\<lambda>e. \<not> ?old e) (outbox s)\<rparr>"
    have d: "deleteOldPublishedEvents configured now s = (Inr n, s')"
      by (simp add: deleteOldPublishedEvents_def c n_def s'_def)
    have ob: "outbox s' = filter (\<lambda>e. \<not> ?old e) (outbox s)" by (simp add: s'_def)
    have len: "length (outbox s') + n = length (outbox s)"
      using sum_length_filter_compl [of ?old "outbox s"] by (simp add: ob n_def)
    have again: "deleteOldPublishedEvents configured now s' = (Inr 0, s')"
      by (simp add: deleteOldPublishedEvents_def c ob s'_def)
    have keep: "filter stuck (outbox s') = filter stuck (outbox s)"
      by (auto simp: ob stuck_def old_published_def intro: filter_cong)
    then have same: "monitorFailedEvents s' = monitorFailedEvents s"
      by (simp add: monitorFailedEvents_def)
    have "set (monitorFailedEvents s) = set (filter stuck (outbox s'))"
      by (simp add: monitorFailedEvents_def keep)
    then have sub: "set (monitorFailedEvents s) \<subseteq> set (outbox s')" by auto
    have h: "outbox_cleanup_handler configured now s = (Inr (n, monitorFailedEvents s), s')"
      by (simp add: outbox_cleanup_handler_def d same)
    have p: "payments s' = payments s" by (simp add: s'_def)
    from d ob n_def len p again same sub h show ?A
      unfolding o by (intro exI [of _ n] exI [of _ s'] conjI)
  qed
  have b: ?B by (simp add: RETENTION_DAYS_def)
  have c: ?C by (simp add: monitorFailedEvents_def st)
  have d: "\<not> ?R \<longrightarrow> ?D"
    by (simp add: outbox_cleanup_handler_def deleteOldPublishedEvents_def cutoffDate_def Let_def)
  from a b c d show ?thesis by (intro conjI)
qed

theorem sweeper_deletes_old_published_reports_stuck_witness:
  "outbox_cleanup_handler None eight_days_after_1000 demo_relay_store =
     (Inr (1, [demo_entry 1 False None 5 100]),
      demo_relay_store\<lparr>outbox := [demo_entry 0 False None 0 300, demo_entry 1 False None 5 100,
                                   demo_entry 3 False None 2 200]\<rparr>)
   \<and> deleteOldPublishedEvents None eight_days_after_1000
        (demo_relay_store\<lparr>outbox := [demo_entry 0 False None 0 300, demo_entry 1 False None 5 100,
                                   demo_entry 3 False None 2 200]\<rparr>) =
     (Inr 0, demo_relay_store\<lparr>outbox := [demo_entry 0 False None 0 300, demo_entry 1 False None 5 100,
                                   demo_entry 3 False None 2 200]\<rparr>)
   \<and> outbox_cleanup_handler (Some 1) (- 8640000000000000) demo_relay_store =
       (Inl InvalidDate, demo_relay_store)"
proof -
  have r: "abs (eight_days_after_1000 - RETENTION_DAYS None * 86400000) \<le> 8640000000000000"
    by (simp add: eight_days_after_1000_def RETENTION_DAYS_def)
  have d: "deleteOldPublishedEvents None eight_days_after_1000 demo_relay_store =
     (Inr 1, demo_relay_store\<lparr>outbox := [demo_entry 0 False None 0 300, demo_entry 1 False None 5 100,
                                   demo_entry 3 False None 2 200]\<rparr>)"
    by code_simp
  have m: "monitorFailedEvents demo_relay_store = [demo_entry 1 False None 5 100]"
    by code_simp
  note t = sweeper_deletes_old_published_reports_stuck [of eight_days_after_1000 None demo_relay_store]
  from t [THEN conjunct1, THEN mp, OF r] obtain n s' where
    e: "deleteOldPublishedEvents None eight_days_after_1000 demo_relay_store = (Inr n, s')"
    and a: "deleteOldPublishedEvents None eight_days_after_1000 s' = (Inr 0, s')"
    and h: "outbox_cleanup_handler None eight_days_after_1000 demo_relay_store =
       (Inr (n, monitorFailedEvents demo_relay_store), s')"
    by (elim exE conjE)
  from e [symmetric, THEN trans, OF d]
  have ns: "n = 1 \<and> s' = demo_relay_store\<lparr>outbox := [demo_entry 0 False None 0 300,
        demo_entry 1 False None 5 100, demo_entry 3 False None 2 200]\<rparr>"
    by (simp only: prod.inject sum.inject)
  from ns have n: "n = 1" by (rule conjunct1)
  from ns have s': "s' = demo_relay_store\<lparr>outbox := [demo_entry 0 False None 0 300,
        demo_entry 1 False None 5 100, demo_entry 3 False None 2 200]\<rparr>"
    by (rule conjunct2)
  have x: "\<not> abs (- 8640000000000000 - RETENTION_DAYS (Some 1) * 86400000) \<le> (8640000000000000 :: int)"
    by (simp add: RETENTION_DAYS_def)
  have w3: "outbox_cleanup_handler (Some 1) (- 8640000000000000) demo_relay_store =
       (Inl InvalidDate, demo_relay_store)"
    using sweeper_deletes_old_published_reports_stuck [of "- 8640000000000000" "Some 1" demo_relay_store] x
    by (elim conjE) simp
  from h a w3 show ?thesis by (simp only: n s' m simp_thms)
qed

section \<open>Outbox processor: one pass\<close>

lemma update_where_keyed:
  assumes "distinct (map g xs)"
  shows "update_where (\<lambda>r. g r = i) f xs =
           (if i \<in> g ` set xs
            then Some (f (the (find (\<lambda>r. g r = i) xs)), map (\<lambda>r. if g r = i then f r else r) xs)
            else None)"
  using assms
proof (induction xs)
  case Nil
  then show ?case by simp
next
  case (Cons x xs)
  show ?case
  proof (cases "g x = i")
    case True
    with Cons.prems have "i \<notin> g ` set xs" by auto
    then have "map (\<lambda>r. if g r = i then f r else r) xs = xs"
      by (intro map_idI) auto
    with True show ?thesis by simp
  next
    case False
    with Cons show ?thesis by auto
  qed
qed

lemma prisma_outbox_update_found:
  assumes "distinct (map ob_id (outbox s))" "i \<in> ob_id ` set (outbox s)"
  shows "prisma_outbox_update i f s =
           (Inr (), s\<lparr>outbox := map (\<lambda>r. if ob_id r = i then f r else r) (outbox s)\<rparr>)"
  using update_where_keyed [OF assms(1), of i f] assms(2)
  by (simp add: prisma_outbox_update_def)

lemma publishEvent_rows:
  assumes "distinct (map ob_id (outbox s))"
  shows "snd (publishEvent env b event s) =
           s\<lparr>outbox := map (\<lambda>r. if ob_id r = ob_id event then written_row env b event r else r) (outbox s)\<rparr>"
proof (cases "ob_id event \<in> ob_id ` set (outbox s)")
  case True
  note f = prisma_outbox_update_found [OF assms True]
  show ?thesis
  proof (cases "TOPIC_MAPPING env (eventType event)")
    case None
    then show ?thesis
      by (simp add: publishEvent_def record_failure_def written_row_def f)
  next
    case (Some tp)
    show ?thesis
    proof (cases "send b tp event")
      case Sent
      with Some show ?thesis
        by (simp add: publishEvent_def record_failure_def written_row_def f)
    next
      case (SendFailed msg)
      with Some show ?thesis
        by (simp add: publishEvent_def record_failure_def written_row_def f)
    qed
  qed
next
  case False
  have u: "\<And>f. prisma_outbox_update (ob_id event) f s = (Inl RecordNotFound, s)"
    using False update_where_keyed [OF assms, of "ob_id event"] by (simp add: prisma_outbox_update_def)
  from False have "\<forall>r\<in>set (outbox s). ob_id r \<noteq> ob_id event" by (metis imageI)
  then have m: "map (\<lambda>r. if ob_id r = ob_id event then written_row env b event r else r) (outbox s) = outbox s"
    by (intro map_idI) simp
  show ?thesis
    unfolding publishEvent_def record_failure_def
    by (simp add: u m split: option.splits send_result.splits)
qed

lemma written_row_id [simp]: "ob_id (written_row env b event r) = ob_id r"
  by (simp add: written_row_def split: option.splits send_result.splits)

lemma publish_all_rows:
  assumes "distinct (map ob_id (outbox s))" "distinct (map ob_id events)"
  shows "snd (publish_all env b events s) =
           s\<lparr>outbox := map (\<lambda>r. case find (\<lambda>e. ob_id e = ob_id r) events of
                                   None \<Rightarrow> r
                                 | Some e \<Rightarrow> written_row env b e r) (outbox s)\<rparr>"
  using assms
proof (induction events arbitrary: s)
  case Nil
  then show ?case by simp
next
  case (Cons event events)
  let ?s1 = "snd (publishEvent env b event s)"
  have s1: "?s1 = s\<lparr>outbox := map (\<lambda>r. if ob_id r = ob_id event then written_row env b event r else r) (outbox s)\<rparr>"
    by (rule publishEvent_rows [OF Cons.prems(1)])
  have ids: "map ob_id (outbox ?s1) = map ob_id (outbox s)"
    by (simp add: s1 o_def cong: map_cong)
  then have d1: "distinct (map ob_id (outbox ?s1))" using Cons.prems(1) by simp
  from Cons.prems(2) have d2: "distinct (map ob_id events)" and nin: "ob_id event \<notin> ob_id ` set events"
    by auto
  from nin have "\<forall>e\<in>set events. ob_id e \<noteq> ob_id event" by (metis imageI)
  then have nf: "find (\<lambda>e. ob_id e = ob_id event) events = None"
    by (simp add: find_None_iff)
  have step: "snd (publish_all env b (event # events) s) = snd (publish_all env b events ?s1)"
    by (simp split: prod.splits sum.splits)
  have "snd (publish_all env b events ?s1) =
      ?s1\<lparr>outbox := map (\<lambda>r. case find (\<lambda>e. ob_id e = ob_id r) events of
                                   None \<Rightarrow> r
                                 | Some e \<Rightarrow> written_row env b e r) (outbox ?s1)\<rparr>"
    by (rule Cons.IH [OF d1 d2])
  also have "\<dots> = s\<lparr>outbox := map (\<lambda>r. case find (\<lambda>e. ob_id e = ob_id r) (event # events) of
                                   None \<Rightarrow> r
                                 | Some e \<Rightarrow> written_row env b e r) (outbox s)\<rparr>"
    by (simp add: s1 nf o_def cong: map_cong)
  finally show ?case by (simp only: step)
qed

lemma find_batch_subset: "set (find_batch s) \<subseteq> set (filter pending (outbox s))"
  unfolding find_batch_def
  using set_take_subset [of BATCH_SIZE "sort_key createdAt (filter pending (outbox s))"]
  by simp

lemma find_batch_distinct:
  assumes "distinct (map ob_id (outbox s))"
  shows "distinct (map ob_id (find_batch s))"
proof -
  have "distinct (map ob_id (filter pending (outbox s)))"
    using assms by (rule distinct_map_filter)
  moreover have "mset (map ob_id (sort_key createdAt (filter pending (outbox s)))) =
      mset (map ob_id (filter pending (outbox s)))"
    by simp
  ultimately have "distinct (map ob_id (sort_key createdAt (filter pending (outbox s))))"
    by (metis mset_eq_imp_distinct_iff)
  then show ?thesis
    by (simp add: find_batch_def take_map [symmetric])
qed

lemma find_keyed:
  assumes "inj_on g (set ys)" "set xs \<subseteq> set ys" "r \<in> set ys"
  shows "find (\<lambda>e. g e = g r) xs = (if r \<in> set xs then Some r else None)"
  using assms(2)
proof (induction xs)
  case Nil
  then show ?case by simp
next
  case (Cons x xs)
  then have x: "x \<in> set ys" and sub: "set xs \<subseteq> set ys" by auto
  have "(g x = g r) = (x = r)"
    using assms(1,3) x by (auto dest: inj_onD)
  with Cons.IH [OF sub] show ?case by auto
qed

lemma relay_rows:
  assumes "distinct (map ob_id (outbox s))"
  shows "snd (outbox_processor_handler env b s) =
           (if connects b
            then s\<lparr>outbox := map (\<lambda>r. if r \<in> set (find_batch s) then written_row env b r r else r)
                                (outbox s)\<rparr>
            else s)"
proof (cases "connects b")
  case False
  then show ?thesis by (simp add: outbox_processor_handler_def)
next
  case True
  have inj: "inj_on ob_id (set (outbox s))"
    using assms by (simp add: distinct_map)
  have sub: "set (find_batch s) \<subseteq> set (outbox s)"
    using find_batch_subset [of s] by auto
  have f: "(case find (\<lambda>e. ob_id e = ob_id r) (find_batch s) of
               None \<Rightarrow> r | Some e \<Rightarrow> written_row env b e r) =
           (if r \<in> set (find_batch s) then written_row env b r r else r)"
    if "r \<in> set (outbox s)" for r
    by (simp add: find_keyed [OF inj sub that])
  have all: "snd (publish_all env b (find_batch s) s) =
      s\<lparr>outbox := map (\<lambda>r. if r \<in> set (find_batch s) then written_row env b r r else r) (outbox s)\<rparr>"
    by (simp add: publish_all_rows [OF assms find_batch_distinct [OF assms]] f cong: map_cong)
  show ?thesis
  proof (cases "find_batch s = []")
    case e: True
    then have "map (\<lambda>r. if r \<in> set (find_batch s) then written_row env b r r else r) (outbox s) = outbox s"
      by (intro map_idI) simp
    with e True show ?thesis by (simp add: outbox_processor_handler_def)
  next
    case e: False
    with True all show ?thesis by (simp add: outbox_processor_handler_def Let_def)
  qed
qed

lemma error_text_cases:
  "error_text msg =
     (case msg of None \<Rightarrow> ''Unknown error''
      | Some m \<Rightarrow> if m = [] then ''Unknown error'' else take 500 m)"
  by (simp add: error_text_def split: option.splits)

lemma error_text_bounded: "length (error_text msg) \<le> 500"
  by (auto simp: error_text_def split: option.splits)

text \<open>
  C7 (as amended). When the producer cannot connect, the pass throws before it reads the
  batch and the store is as it was. When the producer is connected, the pass over a store
  with distinct outbox ids returns; the outbox has the same ids in the same order (no row
  lost or duplicated) and the payments are untouched. A row outside the batch is
  unchanged. A row of the batch is rewritten by its own outcome only, whatever happens to
  the other rows: a failed publish adds 1 to \<open>retryCount\<close> and stores the error's message
  cut to its first 500 characters (\<^verbatim>\<open>Unknown error\<close> when the message is missing or
  empty); a successful one sets \<open>published\<close> and \<open>publishedAt\<close>; an unknown event type
  adds 1 to \<open>retryCount\<close> and stores \<^verbatim>\<open>Unknown event type: \<close> followed by the type, not
  cut. So when every publish attempt of the pass fails, every row of the batch has
  \<open>retryCount\<close> one higher and none is published.
\<close>

theorem relay_failures_are_isolated:
  assumes "distinct (map ob_id (outbox s))"
    and "outbox_processor_handler env b s = (res, s')"
  shows "(\<not> connects b \<longrightarrow> res = Inl BrokerError \<and> s' = s)
     \<and> (connects b \<longrightarrow>
          res = Inr ()
        \<and> map ob_id (outbox s') = map ob_id (outbox s)
        \<and> payments s' = payments s
        \<and> (\<forall>i<length (outbox s).
             (outbox s ! i \<notin> set (find_batch s) \<longrightarrow> outbox s' ! i = outbox s ! i) \<and>
             (outbox s ! i \<in> set (find_batch s) \<longrightarrow>
                (\<forall>tp msg. TOPIC_MAPPING env (eventType (outbox s ! i)) = Some tp \<and>
                          send b tp (outbox s ! i) = SendFailed msg \<longrightarrow>
                     outbox s' ! i =
                       (outbox s ! i)\<lparr>retryCount := retryCount (outbox s ! i) + 1,
                          lastError := Some (case msg of None \<Rightarrow> ''Unknown error''
                                             | Some m \<Rightarrow> if m = [] then ''Unknown error''
                                                         else take 500 m)\<rparr> \<and>
                     length (the (lastError (outbox s' ! i))) \<le> 500) \<and>
                (\<forall>tp. TOPIC_MAPPING env (eventType (outbox s ! i)) = Some tp \<and>
                      send b tp (outbox s ! i) = Sent \<longrightarrow>
                     outbox s' ! i = (outbox s ! i)\<lparr>published := True,
                                                    publishedAt := Some (clock b (outbox s ! i))\<rparr>) \<and>
                (TOPIC_MAPPING env (eventType (outbox s ! i)) = None \<longrightarrow>
                     outbox s' ! i = (outbox s ! i)\<lparr>retryCount := retryCount (outbox s ! i) + 1,
                        lastError := Some (''Unknown event type: '' @ eventType (outbox s ! i))\<rparr>)))
        \<and> ((\<forall>e\<in>set (find_batch s). \<forall>tp. TOPIC_MAPPING env (eventType e) = Some tp \<longrightarrow> send b tp e \<noteq> Sent)
             \<longrightarrow> (\<forall>i<length (outbox s). outbox s ! i \<in> set (find_batch s) \<longrightarrow>
                    retryCount (outbox s' ! i) = retryCount (outbox s ! i) + 1 \<and>
                    \<not> published (outbox s' ! i) \<and>
                    publishedAt (outbox s' ! i) = publishedAt (outbox s ! i) \<and>
                    (\<exists>m. lastError (outbox s' ! i) = Some m \<and> m \<noteq> [] \<and>
                         (TOPIC_MAPPING env (eventType (outbox s ! i)) \<noteq> None \<longrightarrow> length m \<le> 500)))))"
  (is "(\<not> connects b \<longrightarrow> ?N) \<and> (connects b \<longrightarrow> ?R \<and> ?A \<and> ?B \<and> ?C \<and> ?D)")
proof -
  have n: "\<not> connects b \<longrightarrow> ?N"
    using assms(2) by (auto simp: outbox_processor_handler_def)
  have y: "?R \<and> ?A \<and> ?B \<and> ?C \<and> ?D" if con: "connects b"
  proof -
    have r: ?R
      using assms(2) con by (auto simp: outbox_processor_handler_def Let_def split: if_splits)
    have "s' = snd (outbox_processor_handler env b s)" using assms(2) by simp
    then have s': "s' = s\<lparr>outbox := map (\<lambda>r. if r \<in> set (find_batch s) then written_row env b r r else r)
                                (outbox s)\<rparr>"
      using relay_rows [OF assms(1), of env b] con by simp
    have a: ?A by (simp add: s' o_def cong: map_cong)
    have b: ?B by (simp add: s')
    have nth: "outbox s' ! i = (if outbox s ! i \<in> set (find_batch s)
                            then written_row env b (outbox s ! i) (outbox s ! i) else outbox s ! i)"
      if "i < length (outbox s)" for i
      using that by (simp add: s')
    have c: ?C
      by (auto simp: nth written_row_def error_text_cases [symmetric] error_text_bounded)
    have np: "\<not> published e" if "e \<in> set (find_batch s)" for e
      using that find_batch_subset [of s] by (auto simp: pending_def)
    have d: ?D
    proof (intro impI allI)
      fix i
      assume fail: "\<forall>e\<in>set (find_batch s). \<forall>tp. TOPIC_MAPPING env (eventType e) = Some tp \<longrightarrow> send b tp e \<noteq> Sent"
        and i: "i < length (outbox s)" and m: "outbox s ! i \<in> set (find_batch s)"
      let ?r = "outbox s ! i"
      show "retryCount (outbox s' ! i) = retryCount ?r + 1 \<and>
                   \<not> published (outbox s' ! i) \<and>
                   publishedAt (outbox s' ! i) = publishedAt ?r \<and>
                   (\<exists>m. lastError (outbox s' ! i) = Some m \<and> m \<noteq> [] \<and>
                        (TOPIC_MAPPING env (eventType ?r) \<noteq> None \<longrightarrow> length m \<le> 500))"
      proof (cases "TOPIC_MAPPING env (eventType ?r)")
        case None
        with nth [OF i] m np [OF m] show ?thesis by (simp add: written_row_def)
      next
        case (Some tp)
        with fail m obtain msg where "send b tp ?r = SendFailed msg"
          by (cases "send b tp ?r") auto
        moreover have "error_text msg \<noteq> []"
          by (auto simp: error_text_def split: option.splits)
        ultimately show ?thesis
          using Some nth [OF i] m np [OF m] by (simp add: written_row_def error_text_bounded)
      qed
    qed
    from r a b c d show ?thesis by (intro conjI)
  qed
  from n y show ?thesis by blast
qed

theorem relay_failures_are_isolated_witness:
  "map ob_id (outbox (snd (outbox_processor_handler no_topic_env broker_down demo_relay_store))) = [0, 1, 2, 3]
   \<and> fst (outbox_processor_handler no_topic_env broker_down demo_relay_store) = Inr ()
   \<and> retryCount (outbox (snd (outbox_processor_handler no_topic_env broker_down demo_relay_store)) ! 0) = 1
   \<and> \<not> published (outbox (snd (outbox_processor_handler no_topic_env broker_down demo_relay_store)) ! 0)
   \<and> lastError (outbox (snd (outbox_processor_handler no_topic_env broker_down demo_relay_store)) ! 0) =
       Some ''Connection timeout''
   \<and> retryCount (outbox (snd (outbox_processor_handler no_topic_env broker_down demo_relay_store)) ! 3) = 3
   \<and> outbox (snd (outbox_processor_handler no_topic_env broker_down demo_relay_store)) ! 1 =
       demo_entry 1 False None 5 100
   \<and> outbox (snd (outbox_processor_handler no_topic_env broker_down demo_relay_store)) ! 2 =
       demo_entry 2 True (Some 1000) 0 50
   \<and> outbox_processor_handler no_topic_env broker_unreachable demo_relay_store =
       (Inl BrokerError, demo_relay_store)"
proof -
  let ?s' = "snd (outbox_processor_handler no_topic_env broker_down demo_relay_store)"
  have h: "distinct (map ob_id (outbox demo_relay_store))"
    by (simp add: demo_relay_store_def demo_outbox_def demo_entry_def)
  have con: "connects broker_down" "\<not> connects broker_unreachable"
    by (simp_all add: broker_down_def broker_unreachable_def)
  have fb: "find_batch demo_relay_store = [demo_entry 3 False None 2 200, demo_entry 0 False None 0 300]"
    by code_simp
  have ob: "outbox demo_relay_store =
     [demo_entry 0 False None 0 300, demo_entry 1 False None 5 100,
      demo_entry 2 True (Some 1000) 0 50, demo_entry 3 False None 2 200]"
    by (simp add: demo_relay_store_def demo_outbox_def)
  have fail: "\<forall>e\<in>set (find_batch demo_relay_store). \<forall>tp.
      TOPIC_MAPPING no_topic_env (eventType e) = Some tp \<longrightarrow> send broker_down tp e \<noteq> Sent"
    by (simp add: broker_down_def)
  have tm: "TOPIC_MAPPING no_topic_env (eventType (demo_entry 0 False None 0 300)) =
      Some (TopicName ''payment.completed'')"
    "send broker_down (TopicName ''payment.completed'') (demo_entry 0 False None 0 300) =
      SendFailed (Some ''Connection timeout'')"
    by (simp_all add: TOPIC_MAPPING_def no_topic_env_def or_default_def demo_entry_def broker_down_def)
  note t = relay_failures_are_isolated [where env = no_topic_env and b = broker_down,
      OF h surjective_pairing, THEN conjunct2, THEN mp, OF con(1)]
  from t have r: "fst (outbox_processor_handler no_topic_env broker_down demo_relay_store) = Inr ()"
    by (elim conjE)
  from t have ids: "map ob_id (outbox ?s') = map ob_id (outbox demo_relay_store)"
    by (elim conjE)
  from t have c: "\<forall>i<length (outbox demo_relay_store).
      (outbox demo_relay_store ! i \<notin> set (find_batch demo_relay_store) \<longrightarrow>
         outbox ?s' ! i = outbox demo_relay_store ! i)"
    by (elim conjE) blast
  from t have cf: "\<forall>i<length (outbox demo_relay_store).
      outbox demo_relay_store ! i \<in> set (find_batch demo_relay_store) \<longrightarrow>
        (\<forall>tp msg. TOPIC_MAPPING no_topic_env (eventType (outbox demo_relay_store ! i)) = Some tp \<and>
                  send broker_down tp (outbox demo_relay_store ! i) = SendFailed msg \<longrightarrow>
           outbox ?s' ! i =
             (outbox demo_relay_store ! i)\<lparr>retryCount := retryCount (outbox demo_relay_store ! i) + 1,
                lastError := Some (case msg of None \<Rightarrow> ''Unknown error''
                                   | Some m \<Rightarrow> if m = [] then ''Unknown error'' else take 500 m)\<rparr>)"
    by (elim conjE) blast
  from t fail have d: "\<forall>i<length (outbox demo_relay_store).
      outbox demo_relay_store ! i \<in> set (find_batch demo_relay_store) \<longrightarrow>
        retryCount (outbox ?s' ! i) = retryCount (outbox demo_relay_store ! i) + 1 \<and>
        \<not> published (outbox ?s' ! i)"
    by (elim conjE) blast
  have w0: "map ob_id (outbox ?s') = [0, 1, 2, 3]"
    by (simp add: ids ob demo_entry_def)
  from d [THEN spec, of 0] have w1: "retryCount (outbox ?s' ! 0) = 1" "\<not> published (outbox ?s' ! 0)"
    by (simp_all add: ob fb demo_entry_def)
  have "outbox demo_relay_store ! 0 = demo_entry 0 False None 0 300"
    "outbox demo_relay_store ! 0 \<in> set (find_batch demo_relay_store)" "0 < length (outbox demo_relay_store)"
    by (simp_all add: ob fb)
  with cf [THEN spec, of 0] tm
  have "outbox ?s' ! 0 = (demo_entry 0 False None 0 300)\<lparr>retryCount := retryCount (demo_entry 0 False None 0 300) + 1,
      lastError := Some (take 500 ''Connection timeout'')\<rparr>"
    by simp
  then have w1e: "lastError (outbox ?s' ! 0) = Some ''Connection timeout''"
    by simp
  from d [THEN spec, of 3] have w2: "retryCount (outbox ?s' ! 3) = 3"
    by (simp add: ob fb demo_entry_def)
  from c [THEN spec, of 1] have w3: "outbox ?s' ! 1 = demo_entry 1 False None 5 100"
    by (simp add: ob fb demo_entry_def)
  from c [THEN spec, of 2] have w4: "outbox ?s' ! 2 = demo_entry 2 True (Some 1000) 0 50"
    by (simp add: ob fb demo_entry_def)
  from relay_failures_are_isolated [where env = no_topic_env and b = broker_unreachable,
      OF h surjective_pairing, THEN conjunct1, THEN mp, OF con(2)]
  have w5: "outbox_processor_handler no_topic_env broker_unreachable demo_relay_store =
       (Inl BrokerError, demo_relay_store)"
    by (simp add: prod_eq_iff)
  from w0 r w1 w1e w2 w3 w4 w5 show ?thesis by (intro conjI)
qed

text \<open>
  The claim as first stated fails when the broker is unreachable already at
  \<^verbatim>\<open>producer.connect()\<close>: the batch is not empty and every publish would fail, yet the
  handler rethrows before \<^verbatim>\<open>findMany\<close> and no \<open>retryCount\<close> moves.
\<close>

theorem unreachable_at_connect_changes_no_entry:
  "outbox_processor_handler no_topic_env broker_unreachable demo_relay_store =
     (Inl BrokerError, demo_relay_store)
   \<and> find_batch demo_relay_store = [demo_entry 3 False None 2 200, demo_entry 0 False None 0 300]
   \<and> send broker_unreachable (TopicName ''payment.completed'') (demo_entry 3 False None 2 200) =
       SendFailed (Some ''Connection timeout'')
   \<and> send broker_unreachable (TopicName ''payment.completed'') (demo_entry 0 False None 0 300) =
       SendFailed (Some ''Connection timeout'')
   \<and> map retryCount (outbox (snd (outbox_processor_handler no_topic_env broker_unreachable demo_relay_store)))
       = [0, 5, 0, 2]
   \<and> map retryCount (outbox demo_relay_store) = [0, 5, 0, 2]"
  by (intro conjI; code_simp)

section \<open>Published entries across runs\<close>

lemma evolves_iff:
  "evolves s s' =
     (nextOutboxId s \<le> nextOutboxId s' \<and>
      (\<forall>e'\<in>set (outbox s'). ob_id e' < nextOutboxId s \<longrightarrow>
         (\<exists>e\<in>set (outbox s). ob_id e = ob_id e' \<and> retryCount e \<le> retryCount e' \<and>
            (published e \<longrightarrow> e' = e))))"
  by (simp add: evolves_def list_all_iff list_ex_iff)

lemma outbox_keyed_iff:
  "outbox_keyed s =
     (distinct (map ob_id (outbox s)) \<and> (\<forall>e\<in>set (outbox s). ob_id e < nextOutboxId s))"
  by (simp add: outbox_keyed_def list_all_iff)

lemma published_dated_iff:
  "published_dated s = (\<forall>e\<in>set (outbox s). published e \<longrightarrow> publishedAt e \<noteq> None)"
  by (simp add: published_dated_def list_all_iff)

lemma evolves_refl: "evolves s s"
  by (auto simp: evolves_iff)

lemma evolves_trans:
  assumes "evolves s s'" "evolves s' s''"
  shows "evolves s s''"
  unfolding evolves_iff
proof (intro conjI ballI impI)
  from assms show "nextOutboxId s \<le> nextOutboxId s''" by (auto simp: evolves_iff)
next
  fix e''
  assume m: "e'' \<in> set (outbox s'')" and l: "ob_id e'' < nextOutboxId s"
  from assms(1) have le: "nextOutboxId s \<le> nextOutboxId s'" by (simp add: evolves_iff)
  with l have "ob_id e'' < nextOutboxId s'" by simp
  with assms(2) m obtain e' where e': "e' \<in> set (outbox s')" "ob_id e' = ob_id e''"
    "retryCount e' \<le> retryCount e''" "published e' \<longrightarrow> e'' = e'"
    unfolding evolves_iff by blast
  from e'(2) l have "ob_id e' < nextOutboxId s" by simp
  with assms(1) e'(1) obtain e where e: "e \<in> set (outbox s)" "ob_id e = ob_id e'"
    "retryCount e \<le> retryCount e'" "published e \<longrightarrow> e' = e"
    unfolding evolves_iff by blast
  from e e' show "\<exists>e\<in>set (outbox s). ob_id e = ob_id e'' \<and> retryCount e \<le> retryCount e'' \<and>
      (published e \<longrightarrow> e'' = e)"
    by (intro bexI [of _ e]) auto
qed

lemma handleSuccessPayment_appends:
  "snd (handleSuccessPayment faults now oc s) = s \<or>
   (\<exists>row. outbox (snd (handleSuccessPayment faults now oc s)) = outbox s @ [row] \<and>
      nextOutboxId (snd (handleSuccessPayment faults now oc s)) = Suc (nextOutboxId s) \<and>
      ob_id row = nextOutboxId s \<and> \<not> published row)"
proof -
  obtain r s' where t: "transaction (success_body faults now oc) s = (r, s')"
    by (cases "transaction (success_body faults now oc) s")
  then have h: "snd (handleSuccessPayment faults now oc s) = s'"
    by (auto simp: handleSuccessPayment_def split: sum.splits)
  from transaction_cases [OF t] show ?thesis
  proof
    assume "\<exists>e. r = Inl e \<and> s' = s \<and> fst (success_body faults now oc s) = Inl e"
    with h show ?thesis by auto
  next
    assume "\<exists>v. r = Inr v \<and> success_body faults now oc s = (Inr v, s')"
    then obtain v where v: "success_body faults now oc s = (Inr v, s')" by blast
    from success_body_cases [OF v] h show ?thesis by auto
  qed
qed

lemma handleFailedPayment_appends:
  "snd (handleFailedPayment faults now oc s) = s \<or>
   (\<exists>row. outbox (snd (handleFailedPayment faults now oc s)) = outbox s @ [row] \<and>
      nextOutboxId (snd (handleFailedPayment faults now oc s)) = Suc (nextOutboxId s) \<and>
      ob_id row = nextOutboxId s \<and> \<not> published row)"
proof -
  obtain r s' where t: "transaction (failed_body faults now oc) s = (r, s')"
    by (cases "transaction (failed_body faults now oc) s")
  then have h: "snd (handleFailedPayment faults now oc s) = s'"
    by (auto simp: handleFailedPayment_def split: sum.splits)
  from transaction_cases [OF t] show ?thesis
  proof
    assume "\<exists>e. r = Inl e \<and> s' = s \<and> fst (failed_body faults now oc s) = Inl e"
    with h show ?thesis by auto
  next
    assume "\<exists>v. r = Inr v \<and> failed_body faults now oc s = (Inr v, s')"
    then obtain v where v: "failed_body faults now oc s = (Inr v, s')" by blast
    from failed_body_cases [OF v] h show ?thesis by auto
  qed
qed

lemma handleCallback_appends:
  "snd (handleCallback rt faults now provider body s) = s \<or>
   (\<exists>row. outbox (snd (handleCallback rt faults now provider body s)) = outbox s @ [row] \<and>
      nextOutboxId (snd (handleCallback rt faults now provider body s)) = Suc (nextOutboxId s) \<and>
      ob_id row = nextOutboxId s \<and> \<not> published row)"
proof (cases "verifyAndParseCallback rt provider body")
  case (Inl e)
  then show ?thesis by (simp add: handleCallback_def)
next
  case (Inr res)
  show ?thesis
  proof (cases "no_order_code (orderCode res)")
    case True
    with Inr show ?thesis by (simp add: handleCallback_def)
  next
    case False
    have "snd (handleCallback rt faults now provider body s) =
        (if success res then snd (handleSuccessPayment faults now (the (orderCode res)) s)
         else snd (handleFailedPayment faults now (the (orderCode res)) s))"
      using Inr False by (simp add: handleCallback_def split: prod.splits sum.splits)
    with handleSuccessPayment_appends [of faults now "the (orderCode res)" s]
      handleFailedPayment_appends [of faults now "the (orderCode res)" s]
    show ?thesis by (cases "success res") simp_all
  qed
qed

lemma append_step:
  assumes "outbox_keyed s"
    and "outbox s' = outbox s @ [row]" "nextOutboxId s' = Suc (nextOutboxId s)"
    and "ob_id row = nextOutboxId s" "\<not> published row"
  shows "outbox_keyed s'" "evolves s s'" "published_dated s \<longrightarrow> published_dated s'"
  using assms by (auto simp: outbox_keyed_iff evolves_iff published_dated_iff)

lemma callback_step:
  assumes "outbox_keyed s"
  shows "outbox_keyed (apply_operation (Callback rt faults now provider body) s)"
    "evolves s (apply_operation (Callback rt faults now provider body) s)"
    "published_dated s \<longrightarrow> published_dated (apply_operation (Callback rt faults now provider body) s)"
  using handleCallback_appends [of rt faults now provider body s] assms
    append_step [OF assms, of "snd (handleCallback rt faults now provider body s)"] evolves_refl [of s]
  by auto

lemma written_row_props:
  "retryCount r \<le> retryCount (written_row env b event r)"
  "published (written_row env b event r) \<longrightarrow>
     published r \<or> publishedAt (written_row env b event r) \<noteq> None"
  "publishedAt (written_row env b event r) = None \<longrightarrow> published (written_row env b event r) = published r"
  by (auto simp: written_row_def split: option.splits send_result.splits)

lemma relay_step:
  assumes "outbox_keyed s"
  shows "outbox_keyed (apply_operation (RelayPass env b) s)"
    "evolves s (apply_operation (RelayPass env b) s)"
    "published_dated s \<longrightarrow> published_dated (apply_operation (RelayPass env b) s)"
proof -
  let ?s' = "snd (outbox_processor_handler env b s)"
  from assms have d: "distinct (map ob_id (outbox s))" by (simp add: outbox_keyed_iff)
  have np: "\<not> published r" if "r \<in> set (find_batch s)" for r
    using that find_batch_subset [of s] by (auto simp: pending_def)
  have main: "outbox_keyed ?s' \<and> evolves s ?s' \<and> (published_dated s \<longrightarrow> published_dated ?s')"
  proof (cases "connects b")
    case False
    then have "?s' = s" by (simp add: relay_rows [OF d])
    with assms show ?thesis by (simp add: evolves_refl)
  next
    case True
    then have s': "?s' = s\<lparr>outbox := map (\<lambda>r. if r \<in> set (find_batch s) then written_row env b r r else r)
                                (outbox s)\<rparr>"
      by (simp add: relay_rows [OF d])
    have ids: "map ob_id (outbox ?s') = map ob_id (outbox s)"
      by (simp add: s' o_def cong: map_cong)
    have nx: "nextOutboxId ?s' = nextOutboxId s" by (simp add: s')
    have "ob_id ` set (outbox ?s') = ob_id ` set (outbox s)"
      using ids by (metis set_map)
    with assms ids nx have k: "outbox_keyed ?s'"
      unfolding outbox_keyed_iff by (metis imageE imageI)
    have ev: "evolves s ?s'"
      unfolding evolves_iff
    proof (intro conjI ballI impI)
      show "nextOutboxId s \<le> nextOutboxId ?s'" by (simp add: nx)
    next
      fix e' assume "e' \<in> set (outbox ?s')"
      then obtain r where r: "r \<in> set (outbox s)"
        "e' = (if r \<in> set (find_batch s) then written_row env b r r else r)"
        by (auto simp: s')
      show "\<exists>e\<in>set (outbox s). ob_id e = ob_id e' \<and> retryCount e \<le> retryCount e' \<and>
          (published e \<longrightarrow> e' = e)"
        using r np written_row_props(1) [of r env b r]
        by (intro bexI [of _ r]) auto
    qed
    have pd: "published_dated s \<longrightarrow> published_dated ?s'"
      unfolding published_dated_iff
    proof (intro impI ballI)
      fix e' assume inv: "\<forall>e\<in>set (outbox s). published e \<longrightarrow> publishedAt e \<noteq> None"
        and m: "e' \<in> set (outbox ?s')" and p: "published e'"
      from m obtain r where r: "r \<in> set (outbox s)"
        "e' = (if r \<in> set (find_batch s) then written_row env b r r else r)"
        by (auto simp: s')
      show "publishedAt e' \<noteq> None"
      proof (cases "r \<in> set (find_batch s)")
        case True
        with r p np [OF True] written_row_props(2) [of env b r r] show ?thesis by auto
      next
        case False
        with r p inv show ?thesis by auto
      qed
    qed
    from k ev pd show ?thesis by (intro conjI)
  qed
  from main show "outbox_keyed (apply_operation (RelayPass env b) s)"
    "evolves s (apply_operation (RelayPass env b) s)"
    "published_dated s \<longrightarrow> published_dated (apply_operation (RelayPass env b) s)"
    by simp_all
qed

lemma sweep_step:
  assumes "outbox_keyed s"
  shows "outbox_keyed (apply_operation (Sweep configured now) s)"
    "evolves s (apply_operation (Sweep configured now) s)"
    "published_dated s \<longrightarrow> published_dated (apply_operation (Sweep configured now) s)"
proof -
  have s': "snd (outbox_cleanup_handler configured now s) =
      (case cutoffDate now (RETENTION_DAYS configured) of
         None \<Rightarrow> s
       | Some cutoff \<Rightarrow> s\<lparr>outbox := filter (\<lambda>e. \<not> old_published cutoff e) (outbox s)\<rparr>)"
    by (simp add: outbox_cleanup_handler_def deleteOldPublishedEvents_def split: option.splits)
  from assms show "outbox_keyed (apply_operation (Sweep configured now) s)"
    by (auto simp: s' outbox_keyed_iff distinct_map_filter split: option.splits)
  show "evolves s (apply_operation (Sweep configured now) s)"
    by (auto simp: s' evolves_iff split: option.splits)
  show "published_dated s \<longrightarrow> published_dated (apply_operation (Sweep configured now) s)"
    by (auto simp: s' published_dated_iff split: option.splits)
qed

lemma operation_step:
  assumes "outbox_keyed s"
  shows "outbox_keyed (apply_operation x s)"
    "evolves s (apply_operation x s)"
    "published_dated s \<longrightarrow> published_dated (apply_operation x s)"
  using callback_step [OF assms] relay_step [OF assms] sweep_step [OF assms]
  by (cases x; simp)+

lemma run_operations_steps:
  assumes "outbox_keyed s"
  shows "outbox_keyed (run_operations xs s) \<and> evolves s (run_operations xs s) \<and>
         (published_dated s \<longrightarrow> published_dated (run_operations xs s))"
  using assms
proof (induction xs arbitrary: s)
  case Nil
  then show ?case by (simp add: run_operations_def evolves_refl)
next
  case (Cons x xs)
  note st = operation_step [OF Cons.prems, of x]
  from Cons.IH [OF st(1)] st(2,3) evolves_trans [of s "apply_operation x s"]
  show ?case by (auto simp: run_operations_def)
qed

text \<open>
  C8 (as amended). Start from a store whose outbox ids are distinct and below the id
  counter, and run any sequence of callbacks, relay passes and cleanup runs, one after
  the other. A row that was published at the start is, at the end, either still there
  unchanged or deleted. If every published row had \<open>publishedAt\<close> set at the start, so
  has every published row at the end. And a row at the end has a \<open>retryCount\<close> no
  smaller than the row with its id had at the start.
\<close>

theorem published_entries_are_final:
  assumes "distinct (map ob_id (outbox s))"
    and "\<forall>e\<in>set (outbox s). ob_id e < nextOutboxId s"
    and "s' = run_operations xs s"
  shows "(\<forall>e\<in>set (outbox s). published e \<longrightarrow>
            e \<in> set (outbox s') \<or> ob_id e \<notin> ob_id ` set (outbox s'))
     \<and> ((\<forall>e\<in>set (outbox s). published e \<longrightarrow> publishedAt e \<noteq> None) \<longrightarrow>
          (\<forall>e'\<in>set (outbox s'). published e' \<longrightarrow> publishedAt e' \<noteq> None))
     \<and> (\<forall>e\<in>set (outbox s). \<forall>e'\<in>set (outbox s'). ob_id e' = ob_id e \<longrightarrow> retryCount e \<le> retryCount e')
     \<and> distinct (map ob_id (outbox s'))"
  (is "?A \<and> ?B \<and> ?C \<and> ?D")
proof -
  from assms(1,2) have k: "outbox_keyed s" by (simp add: outbox_keyed_iff)
  note r = run_operations_steps [OF k, of xs, folded assms(3)]
  from r have ev: "\<forall>e'\<in>set (outbox s'). ob_id e' < nextOutboxId s \<longrightarrow>
         (\<exists>e\<in>set (outbox s). ob_id e = ob_id e' \<and> retryCount e \<le> retryCount e' \<and>
            (published e \<longrightarrow> e' = e))"
    by (simp add: evolves_iff)
  have inj: "inj_on ob_id (set (outbox s))" using assms(1) by (simp add: distinct_map)
  have same: "\<exists>e0\<in>set (outbox s). e0 = e \<and> retryCount e \<le> retryCount e' \<and> (published e \<longrightarrow> e' = e)"
    if "e \<in> set (outbox s)" "e' \<in> set (outbox s')" "ob_id e' = ob_id e" for e e'
  proof -
    from that assms(2) have "ob_id e' < nextOutboxId s" by auto
    with ev that(2) obtain e0 where e0: "e0 \<in> set (outbox s)" "ob_id e0 = ob_id e'"
      "retryCount e0 \<le> retryCount e'" "published e0 \<longrightarrow> e' = e0" by blast
    from e0(1,2) that(1,3) inj have "e0 = e" by (auto dest: inj_onD)
    with e0 show ?thesis by auto
  qed
  have a: ?A
  proof (intro ballI impI)
    fix e assume e: "e \<in> set (outbox s)" "published e"
    show "e \<in> set (outbox s') \<or> ob_id e \<notin> ob_id ` set (outbox s')"
    proof (cases "ob_id e \<in> ob_id ` set (outbox s')")
      case True
      then obtain e' where e': "e' \<in> set (outbox s')" "ob_id e' = ob_id e" by auto
      from same [OF e(1) e'] e(2) have "e' = e" by auto
      with e'(1) show ?thesis by simp
    next
      case False
      then show ?thesis by simp
    qed
  qed
  have b: ?B using r by (simp add: published_dated_iff)
  have c: ?C using same by blast
  have d: ?D using r by (simp add: outbox_keyed_iff)
  from a b c d show ?thesis by (intro conjI)
qed

theorem published_entries_are_final_witness:
  "distinct (map ob_id (outbox (run_operations
      [RelayPass no_topic_env broker_up, Sweep None eight_days_after_1000,
       Callback demo_rt no_faults 7000 ZALOPAY (zalo_body ''key2'' zalo_data),
       RelayPass no_topic_env broker_down] demo_relay_store)))
   \<and> list_all (\<lambda>e'. published e' \<longrightarrow> publishedAt e' \<noteq> None)
        (outbox (run_operations
      [RelayPass no_topic_env broker_up, Sweep None eight_days_after_1000,
       Callback demo_rt no_faults 7000 ZALOPAY (zalo_body ''key2'' zalo_data),
       RelayPass no_topic_env broker_down] demo_relay_store))
   \<and> list_all (\<lambda>e'. ob_id e' = 1 \<longrightarrow> 5 \<le> retryCount e')
        (outbox (run_operations
      [RelayPass no_topic_env broker_up, Sweep None eight_days_after_1000,
       Callback demo_rt no_faults 7000 ZALOPAY (zalo_body ''key2'' zalo_data),
       RelayPass no_topic_env broker_down] demo_relay_store))"
proof -
  have ob: "outbox demo_relay_store =
     [demo_entry 0 False None 0 300, demo_entry 1 False None 5 100,
      demo_entry 2 True (Some 1000) 0 50, demo_entry 3 False None 2 200]"
    "nextOutboxId demo_relay_store = 4"
    by (simp_all add: demo_relay_store_def demo_outbox_def)
  have h: "distinct (map ob_id (outbox demo_relay_store))"
    "\<forall>e\<in>set (outbox demo_relay_store). ob_id e < nextOutboxId demo_relay_store"
    "\<forall>e\<in>set (outbox demo_relay_store). published e \<longrightarrow> publishedAt e \<noteq> None"
    "demo_entry 1 False None 5 100 \<in> set (outbox demo_relay_store)"
    by (simp_all add: ob demo_entry_def)
  note t = published_entries_are_final [OF h(1,2) refl,
      of "[RelayPass no_topic_env broker_up, Sweep None eight_days_after_1000,
       Callback demo_rt no_faults 7000 ZALOPAY (zalo_body ''key2'' zalo_data),
       RelayPass no_topic_env broker_down]"]
  from t have d: "distinct (map ob_id (outbox (run_operations
      [RelayPass no_topic_env broker_up, Sweep None eight_days_after_1000,
       Callback demo_rt no_faults 7000 ZALOPAY (zalo_body ''key2'' zalo_data),
       RelayPass no_topic_env broker_down] demo_relay_store)))"
    by (elim conjE)
  from t h(3) have p: "\<forall>e'\<in>set (outbox (run_operations
      [RelayPass no_topic_env broker_up, Sweep None eight_days_after_1000,
       Callback demo_rt no_faults 7000 ZALOPAY (zalo_body ''key2'' zalo_data),
       RelayPass no_topic_env broker_down] demo_relay_store)). published e' \<longrightarrow> publishedAt e' \<noteq> None"
    by (elim conjE) blast
  from t have "\<forall>e\<in>set (outbox demo_relay_store). \<forall>e'\<in>set (outbox (run_operations
      [RelayPass no_topic_env broker_up, Sweep None eight_days_after_1000,
       Callback demo_rt no_faults 7000 ZALOPAY (zalo_body ''key2'' zalo_data),
       RelayPass no_topic_env broker_down] demo_relay_store)).
        ob_id e' = ob_id e \<longrightarrow> retryCount e \<le> retryCount e'"
    by (elim conjE)
  from this [THEN bspec, OF h(4)]
  have r: "\<forall>e'\<in>set (outbox (run_operations
      [RelayPass no_topic_env broker_up, Sweep None eight_days_after_1000,
       Callback demo_rt no_faults 7000 ZALOPAY (zalo_body ''key2'' zalo_data),
       RelayPass no_topic_env broker_down] demo_relay_store)). ob_id e' = 1 \<longrightarrow> 5 \<le> retryCount e'"
    by (simp add: demo_entry_def)
  from d p r show ?thesis by (simp add: list_all_iff)
qed

text \<open>
  The mark-published write itself is not conditional: it is an update by id alone. Run
  on an entry that was read while unpublished but whose row has meanwhile been published
  at instant 1000, \<open>publishEvent\<close> overwrites \<open>publishedAt\<close> with 5000; and when its
  own publish fails it raises the \<open>retryCount\<close> of the published row.
\<close>

theorem mark_published_overwrites_published_row:
  "publishEvent no_topic_env broker_up (demo_entry 2 False None 0 50)
      \<lparr>payments = [], outbox = [demo_entry 2 True (Some 1000) 0 50], nextOutboxId = 3\<rparr>
     = (Inr (), \<lparr>payments = [], outbox = [demo_entry 2 True (Some 5000) 0 50], nextOutboxId = 3\<rparr>)
   \<and> map retryCount (outbox (snd (publishEvent no_topic_env broker_down (demo_entry 2 False None 0 50)
      \<lparr>payments = [], outbox = [demo_entry 2 True (Some 1000) 0 50], nextOutboxId = 3\<rparr>))) = [1]
   \<and> map published (outbox (snd (publishEvent no_topic_env broker_down (demo_entry 2 False None 0 50)
      \<lparr>payments = [], outbox = [demo_entry 2 True (Some 1000) 0 50], nextOutboxId = 3\<rparr>))) = [True]"
  by (intro conjI; code_simp)

end
